theory Spec2Isabelle
  imports Main "HOL-Library.Monad_Syntax"
begin

section \<open>Shared JavaScript primitives\<close>

text \<open>
  The converter is JavaScript. Strings are modelled as \<open>string\<close> (character lists), a
  value that may be \<open>null\<close> as an \<open>option\<close>, a \<open>Map\<close> as the list of its entries in
  insertion order (keys distinct), and a \<open>Set\<close> of names as the list of its members in
  insertion order.
\<close>

text \<open>\<open>Set.prototype.add\<close>: a member already present is not added again.\<close>

definition set_add :: "'a \<Rightarrow> 'a list \<Rightarrow> 'a list" where
  "set_add x xs = (if x \<in> set xs then xs else xs @ [x])"

text \<open>\<open>Array.prototype.join\<close> on an array of strings.\<close>

fun join :: "string \<Rightarrow> string list \<Rightarrow> string" where
  "join sep [] = []"
| "join sep [x] = x"
| "join sep (x # y # ys) = x @ sep @ join sep (y # ys)"

text \<open>Decimal rendering of a non-negative number in a template literal.\<close>

definition digit_char :: "nat \<Rightarrow> char" where
  "digit_char d = char_of (48 + d)"

fun string_of_nat :: "nat \<Rightarrow> string" where
  "string_of_nat n =
     (if n < 10 then [digit_char n]
      else string_of_nat (n div 10) @ [digit_char (n mod 10)])"

section \<open>Dependency records (\<open>dag_analyzer\<close>) and layers (\<open>topological_sorter\<close>)\<close>

record foreign_entity_def =
  fe_name :: string
  fe_expr :: "string option"
  fe_file :: "string option"
  fe_semanticModelName :: "string option"

record model_info =
  mi_fileName :: string
  mi_name :: string
  mi_description :: "string option"
  mi_primaryEntity :: "string option"
  mi_foreignEntities :: "foreign_entity_def list"
  mi_allEntities :: "string list"

record dep_info =
  modelInfo :: model_info
  dependsOn :: "string list"
  dependents :: "string list"

type_synonym dependencies = "(string \<times> dep_info) list"

record layer_model =
  lm_name :: string
  lm_fileName :: string
  lm_primaryEntity :: "string option"
  lm_foreignEntities :: "foreign_entity_def list"

record layer =
  layer_no :: nat
  models :: "layer_model list"
  description :: string

subsection \<open>\<open>TopologicalSorter.sort\<close>\<close>

text \<open>The object literal pushed for a model, in all three places of \<open>sort\<close>.\<close>

definition layer_entry :: "string \<Rightarrow> dep_info \<Rightarrow> layer_model" where
  "layer_entry modelName depInfo =
     \<lparr> lm_name = modelName,
       lm_fileName = mi_fileName (modelInfo depInfo),
       lm_primaryEntity = mi_primaryEntity (modelInfo depInfo),
       lm_foreignEntities = mi_foreignEntities (modelInfo depInfo) \<rparr>"

text \<open>
  The first \<open>for\<close> loop: the models with no dependencies. The accumulators are
  \<open>layer1\<close> and \<open>this.processed\<close>.
\<close>

fun collect_layer1 ::
  "dependencies \<Rightarrow> layer_model list \<Rightarrow> string list \<Rightarrow> layer_model list \<times> string list" where
  "collect_layer1 [] layer1 processed = (layer1, processed)"
| "collect_layer1 ((modelName, depInfo) # es) layer1 processed =
     (if length (dependsOn depInfo) = 0
      then collect_layer1 es (layer1 @ [layer_entry modelName depInfo]) (set_add modelName processed)
      else collect_layer1 es layer1 processed)"

text \<open>
  The \<open>for\<close> loop inside the \<open>while\<close>: a model not yet processed joins the current
  layer when every dependency is in \<open>previousLayerModels\<close>, which is not updated
  during the round.
\<close>

fun collect_round ::
  "dependencies \<Rightarrow> string list \<Rightarrow> layer_model list \<Rightarrow> string list
     \<Rightarrow> layer_model list \<times> string list" where
  "collect_round [] previousLayerModels cur processed = (cur, processed)"
| "collect_round ((modelName, depInfo) # es) previousLayerModels cur processed =
     (if modelName \<in> set processed then collect_round es previousLayerModels cur processed
      else if list_all (\<lambda>dep. dep \<in> set previousLayerModels) (dependsOn depInfo)
      then collect_round es previousLayerModels
             (cur @ [layer_entry modelName depInfo]) (set_add modelName processed)
      else collect_round es previousLayerModels cur processed)"

text \<open>
  The cycle-breaking loop over \<open>remainingModels\<close>. The names come from the keys of the
  map, so \<open>this.dependencies.get\<close> finds each of them; the \<open>None\<close> branch is never
  taken.
\<close>

fun add_remaining ::
  "dependencies \<Rightarrow> string list \<Rightarrow> layer_model list \<Rightarrow> string list
     \<Rightarrow> layer_model list \<times> string list" where
  "add_remaining deps [] cur processed = (cur, processed)"
| "add_remaining deps (modelName # ns) cur processed =
     (case map_of deps modelName of
        None \<Rightarrow> add_remaining deps ns cur processed
      | Some depInfo \<Rightarrow>
          add_remaining deps ns (cur @ [layer_entry modelName depInfo])
            (set_add modelName processed))"

record sorter_state =
  layers :: "layer list"
  processed :: "string list"
  previousLayerModels :: "string list"
  currentLayer :: nat
  warnings :: "string list"

definition circular_warning :: "string list \<Rightarrow> string" where
  "circular_warning remainingModels =
     ''Warning: Circular dependencies detected for models: '' @ join '', '' remainingModels @ ''.''"

definition layer_description :: "nat \<Rightarrow> string" where
  "layer_description n =
     ''Models that depend only on entities from layers 1-'' @ string_of_nat (n - 1)"

text \<open>
  The tail of one iteration of the \<open>while\<close> loop: push the layer when it is not
  empty, extend \<open>previousLayerModels\<close>, increment \<open>currentLayer\<close>.
\<close>

definition finish_round ::
  "sorter_state \<Rightarrow> layer_model list \<Rightarrow> string list \<Rightarrow> string list \<Rightarrow> sorter_state" where
  "finish_round st cur processed' warnings' =
     (if length cur > 0
      then st \<lparr> layers := layers st @
                   [\<lparr> layer_no = currentLayer st, models = cur,
                      description = layer_description (currentLayer st) \<rparr>],
                processed := processed',
                previousLayerModels := fold set_add (map lm_name cur) (previousLayerModels st),
                currentLayer := currentLayer st + 1,
                warnings := warnings' \<rparr>
      else st \<lparr> processed := processed', currentLayer := currentLayer st + 1,
                warnings := warnings' \<rparr>)"

text \<open>One iteration of the \<open>while\<close> body; \<open>None\<close> is the \<open>break\<close>.\<close>

definition sort_step :: "dependencies \<Rightarrow> sorter_state \<Rightarrow> sorter_state option" where
  "sort_step deps st =
     (case collect_round deps (previousLayerModels st) [] (processed st) of
        (cur, processed1) \<Rightarrow>
          if length cur = 0 then
            (let remainingModels = filter (\<lambda>name. name \<notin> set processed1) (map fst deps) in
             if length remainingModels > 0 then
               (case add_remaining deps remainingModels cur processed1 of
                  (cur2, processed2) \<Rightarrow>
                    Some (finish_round st cur2 processed2
                            (warnings st @ [circular_warning remainingModels])))
             else None)
          else Some (finish_round st cur processed1 (warnings st)))"

text \<open>
  The \<open>while\<close> loop. Every iteration that does not \<open>break\<close> adds a name to
  \<open>this.processed\<close>, which bounds the number of iterations.
\<close>

lemma collect_round_length:
  "collect_round es prev cur p = (cur', p') \<Longrightarrow> length p' + length cur = length p + length cur'"
  by (induction es prev cur p rule: collect_round.induct)
     (auto simp: set_add_def split: if_splits)

lemma add_remaining_length:
  "add_remaining deps ns cur p = (cur', p') \<Longrightarrow> length p \<le> length p'"
  by (induction deps ns cur p rule: add_remaining.induct)
     (auto simp: set_add_def split: if_splits option.splits)

lemma add_remaining_grows:
  assumes "add_remaining deps ns cur p = (cur', p')" "ns \<noteq> []" "set ns \<subseteq> fst ` set deps"
    "set ns \<inter> set p = {}"
  shows "length p < length p'"
proof (cases ns)
  case Nil
  with assms show ?thesis by simp
next
  case (Cons n ns')
  with assms obtain d where d: "map_of deps n = Some d"
    by (cases "map_of deps n") (auto simp: map_of_eq_None_iff)
  from Cons assms have "n \<notin> set p" by auto
  with Cons d assms(1) have "add_remaining deps ns' (cur @ [layer_entry n d]) (p @ [n]) = (cur', p')"
    by (simp add: set_add_def)
  from add_remaining_length[OF this] show ?thesis by simp
qed

lemma sort_step_grows:
  assumes "sort_step deps st = Some st'"
  shows "length (processed st) < length (processed st')"
proof -
  obtain cur p1 where cr: "collect_round deps (previousLayerModels st) [] (processed st) = (cur, p1)"
    by (cases "collect_round deps (previousLayerModels st) [] (processed st)")
  from collect_round_length[OF cr] have len: "length p1 = length (processed st) + length cur"
    by simp
  show ?thesis
  proof (cases "length cur = 0")
    case False
    with assms cr len show ?thesis
      by (auto simp: sort_step_def finish_round_def)
  next
    case True
    define rem where "rem = filter (\<lambda>name. name \<notin> set p1) (map fst deps)"
    from True assms cr have ne: "rem \<noteq> []"
      by (auto simp: sort_step_def rem_def Let_def split: if_splits)
    obtain cur2 p2 where ar: "add_remaining deps rem cur p1 = (cur2, p2)"
      by (cases "add_remaining deps rem cur p1")
    have "length p1 < length p2"
      by (rule add_remaining_grows[OF ar ne]) (auto simp: rem_def)
    moreover from True assms cr ar ne have "processed st' = p2"
      by (auto simp: sort_step_def rem_def[symmetric] Let_def finish_round_def split: if_splits)
    ultimately show ?thesis using len by simp
  qed
qed

function sort_loop :: "dependencies \<Rightarrow> sorter_state \<Rightarrow> sorter_state" where
  "sort_loop deps st =
     (if length (processed st) < length deps then
        (case sort_step deps st of
           None \<Rightarrow> st
         | Some st' \<Rightarrow> sort_loop deps st')
      else st)"
  by pat_completeness auto
termination
  by (relation "measure (\<lambda>(deps, st). length deps - length (processed st))")
     (auto dest: sort_step_grows)

declare sort_loop.simps [simp del]

text \<open>
  \<open>sort()\<close>: layer 1, then the loop. The result is \<open>this.layers\<close> together with the
  warnings written to the console.
\<close>

definition sorter_sort :: "dependencies \<Rightarrow> layer list \<times> string list" where
  "sorter_sort deps =
     (case collect_layer1 deps [] [] of
        (layer1, processed0) \<Rightarrow>
          (let st = sort_loop deps
                 \<lparr> layers =
                     (if length layer1 > 0
                      then [\<lparr> layer_no = 1, models = layer1,
                              description =
                                ''Models with only primary entities (no foreign dependencies).'' \<rparr>]
                      else []),
                   processed = processed0,
                   previousLayerModels = fold set_add (map lm_name layer1) [],
                   currentLayer = 2,
                   warnings = [] \<rparr>
           in (layers st, warnings st)))"

text \<open>The layer numbers of the layers that hold a model of the given name.\<close>

definition layer_names :: "layer \<Rightarrow> string list" where
  "layer_names l = map lm_name (models l)"

definition layer_index :: "layer list \<Rightarrow> string \<Rightarrow> nat list" where
  "layer_index ls m = map layer_no (filter (\<lambda>l. m \<in> set (layer_names l)) ls)"

subsection \<open>Properties of the layering\<close>

text \<open>A model is ready in a round when it is not yet processed and all its dependencies are in the earlier layers.\<close>

definition ready :: "string list \<Rightarrow> string list \<Rightarrow> string \<times> dep_info \<Rightarrow> bool" where
  "ready prev p e = (fst e \<notin> set p \<and> list_all (\<lambda>dep. dep \<in> set prev) (dependsOn (snd e)))"

definition entry_of :: "string \<times> dep_info \<Rightarrow> layer_model" where
  "entry_of e = layer_entry (fst e) (snd e)"

text \<open>A model is placed correctly by a list of layers when exactly one layer holds it and each of its dependencies is held by exactly one layer, of a strictly smaller number.\<close>

definition placed_ok :: "layer list \<Rightarrow> string \<Rightarrow> dep_info \<Rightarrow> bool" where
  "placed_ok ls m info =
     (case layer_index ls m of
        [k] \<Rightarrow> list_all (\<lambda>d. case layer_index ls d of [j] \<Rightarrow> j < k | _ \<Rightarrow> False) (dependsOn info)
      | _ \<Rightarrow> False)"

text \<open>The dependency relation of a map: an edge from a dependency to the model that names it.\<close>

definition dep_edges :: "dependencies \<Rightarrow> (string \<times> string) set" where
  "dep_edges deps = {(d, m). \<exists>info. (m, info) \<in> set deps \<and> d \<in> set (dependsOn info)}"

definition acyclic_deps :: "dependencies \<Rightarrow> bool" where
  "acyclic_deps deps = acyclic (dep_edges deps)"

text \<open>Every dependency named in the map is itself a model of the map.\<close>

definition closed_deps :: "dependencies \<Rightarrow> bool" where
  "closed_deps deps = list_all (\<lambda>e. list_all (\<lambda>d. d \<in> fst ` set deps) (dependsOn (snd e))) deps"

text \<open>The loop invariant for maps without a cycle.\<close>

definition sorter_inv :: "dependencies \<Rightarrow> sorter_state \<Rightarrow> bool" where
  "sorter_inv deps st \<longleftrightarrow>
     distinct (processed st) \<and> set (processed st) \<subseteq> fst ` set deps \<and>
     set (previousLayerModels st) = set (processed st) \<and>
     (\<forall>l \<in> set (layers st). layer_no l < currentLayer st) \<and>
     (\<forall>m. m \<notin> set (processed st) \<longrightarrow> layer_index (layers st) m = []) \<and>
     (\<forall>e \<in> set deps. fst e \<in> set (processed st) \<longrightarrow> placed_ok (layers st) (fst e) (snd e)) \<and>
     warnings st = []"

text \<open>A cycle of the map: a non-empty list of models in which each depends on the next and the last on the first.\<close>

definition depends_on :: "dependencies \<Rightarrow> string \<Rightarrow> string \<Rightarrow> bool" where
  "depends_on deps m d =
     (case map_of deps m of Some info \<Rightarrow> d \<in> set (dependsOn info) | None \<Rightarrow> False)"

definition is_cycle :: "dependencies \<Rightarrow> string list \<Rightarrow> bool" where
  "is_cycle deps c = (c \<noteq> [] \<and> list_all (\<lambda>(m, d). depends_on deps m d) (zip c (rotate1 c)))"

text \<open>The loop invariant while the members of a cycle wait, and the state after the cycle-breaking round.\<close>

definition cycle_inv :: "dependencies \<Rightarrow> string set \<Rightarrow> sorter_state \<Rightarrow> bool" where
  "cycle_inv deps S st \<longleftrightarrow>
     distinct (processed st) \<and> set (processed st) \<subseteq> fst ` set deps \<and>
     set (processed st) \<inter> S = {} \<and> set (previousLayerModels st) \<inter> S = {} \<and>
     (\<forall>l \<in> set (layers st). set (layer_names l) \<inter> S = {}) \<and>
     warnings st = []"

definition cycle_final :: "string set \<Rightarrow> sorter_state \<Rightarrow> bool" where
  "cycle_final S st \<longleftrightarrow>
     layers st \<noteq> [] \<and> S \<subseteq> set (layer_names (last (layers st))) \<and>
     (\<forall>l \<in> set (butlast (layers st)). set (layer_names l) \<inter> S = {}) \<and>
     warnings st = [circular_warning (layer_names (last (layers st)))]"

text \<open>Example maps: a chain, a map whose first model names a dependency outside the map, and a
  map with a cycle between \<open>x\<close> and \<open>y\<close>.\<close>

definition dep_entry :: "string \<Rightarrow> string list \<Rightarrow> string \<times> dep_info" where
  "dep_entry n ds =
     (n, \<lparr> modelInfo =
             \<lparr> mi_fileName = n, mi_name = n, mi_description = None,
               mi_primaryEntity = Some n,
               mi_foreignEntities =
                 map (\<lambda>d. \<lparr> fe_name = d, fe_expr = None, fe_file = Some d,
                            fe_semanticModelName = Some d \<rparr>) ds,
               mi_allEntities = n # ds \<rparr>,
           dependsOn = ds, dependents = [] \<rparr>)"

definition chain_deps :: dependencies where
  "chain_deps = [dep_entry ''c'' [''a'', ''b''], dep_entry ''a'' [], dep_entry ''b'' [''a'']]"

definition dangling_deps :: dependencies where
  "dangling_deps = [dep_entry ''b'' [''a''], dep_entry ''c'' [''b'']]"

definition cyclic_deps :: dependencies where
  "cyclic_deps = [dep_entry ''root'' [], dep_entry ''x'' [''y''],
                  dep_entry ''y'' [''x'', ''root''], dep_entry ''z'' [''x'']]"

lemma lm_name_entry_of [simp]: "lm_name (entry_of e) = fst e"
  by (simp add: entry_of_def layer_entry_def)

lemma set_fold_set_add [simp]: "set (fold set_add xs ys) = set xs \<union> set ys"
  by (induction xs arbitrary: ys) (auto simp: set_add_def)

lemma collect_round_closed:
  "distinct (map fst es) \<Longrightarrow>
   collect_round es prev cur p =
     (cur @ map entry_of (filter (ready prev p) es), p @ map fst (filter (ready prev p) es))"
proof (induction es arbitrary: cur p)
  case Nil
  then show ?case by simp
next
  case (Cons e es)
  obtain n d where e: "e = (n, d)" by (cases e)
  from Cons.prems e have nin: "n \<notin> fst ` set es" and dist: "distinct (map fst es)" by auto
  have same: "filter (ready prev (p @ [n])) es = filter (ready prev p) es"
    using nin by (intro filter_cong refl) (auto simp: ready_def)
  show ?case
  proof (cases "ready prev p e")
    case True
    with e have "n \<notin> set p" "list_all (\<lambda>dep. dep \<in> set prev) (dependsOn d)"
      by (auto simp: ready_def)
    with Cons.IH[OF dist, of "cur @ [layer_entry n d]" "p @ [n]"] e same True show ?thesis
      by (simp add: set_add_def entry_of_def)
  next
    case False
    with Cons.IH[OF dist, of cur p] e show ?thesis
      by (auto simp: ready_def)
  qed
qed

lemma collect_layer1_closed:
  "distinct (map fst es) \<Longrightarrow> set p \<inter> fst ` set es = {} \<Longrightarrow>
   collect_layer1 es l p =
     (l @ map entry_of (filter (\<lambda>e. dependsOn (snd e) = []) es),
      p @ map fst (filter (\<lambda>e. dependsOn (snd e) = []) es))"
proof (induction es arbitrary: l p)
  case Nil
  then show ?case by simp
next
  case (Cons e es)
  obtain n d where e: "e = (n, d)" by (cases e)
  from Cons.prems e have dist: "distinct (map fst es)" and nin: "n \<notin> fst ` set es"
    and np: "n \<notin> set p" and disj: "set p \<inter> fst ` set es = {}" by auto
  from nin disj have disj': "set (p @ [n]) \<inter> fst ` set es = {}" by auto
  show ?case
    using Cons.IH[OF dist disj] Cons.IH[OF dist disj'] e np
    by (auto simp: set_add_def entry_of_def)
qed

lemma add_remaining_closed:
  "distinct ns \<Longrightarrow> set ns \<inter> set p = {} \<Longrightarrow> set ns \<subseteq> fst ` set deps \<Longrightarrow>
   add_remaining deps ns cur p =
     (cur @ map (\<lambda>n. layer_entry n (the (map_of deps n))) ns, p @ ns)"
proof (induction ns arbitrary: cur p)
  case Nil
  then show ?case by simp
next
  case (Cons n ns)
  then obtain d where d: "map_of deps n = Some d"
    by (cases "map_of deps n") (auto simp: map_of_eq_None_iff)
  from Cons.prems have "distinct ns" "set ns \<inter> set (p @ [n]) = {}" "set ns \<subseteq> fst ` set deps" "n \<notin> set p"
    by auto
  with Cons.IH[of "p @ [n]"] d show ?case
    by (simp add: set_add_def)
qed

lemma placed_ok_iff:
  "placed_ok ls m info \<longleftrightarrow>
     (\<exists>k. layer_index ls m = [k] \<and>
          (\<forall>d \<in> set (dependsOn info). \<exists>j. layer_index ls d = [j] \<and> j < k))"
proof -
  have one: "(case xs of [j] \<Rightarrow> P j | _ \<Rightarrow> False) \<longleftrightarrow> (\<exists>j. xs = [j] \<and> P j)"
    for xs :: "nat list" and P
    by (cases xs; cases "tl xs") auto
  show ?thesis
    unfolding placed_ok_def one list_all_iff by (simp add: one)
qed

lemma layer_index_snoc:
  "layer_index (ls @ [l]) m =
     layer_index ls m @ (if m \<in> set (layer_names l) then [layer_no l] else [])"
  by (simp add: layer_index_def)

lemma layer_index_in: "k \<in> set (layer_index ls m) \<Longrightarrow> k \<in> layer_no ` set ls"
  by (auto simp: layer_index_def)

lemma finite_dep_edges: "finite (dep_edges deps)"
proof -
  have "dep_edges deps \<subseteq> (\<Union>e \<in> set deps. set (dependsOn (snd e))) \<times> fst ` set deps"
    by (force simp: dep_edges_def)
  then show ?thesis by (rule finite_subset) auto
qed

lemma exists_ready:
  assumes ac: "acyclic_deps deps" and cl: "closed_deps deps"
    and dk: "distinct (map fst deps)" and dp: "distinct p"
    and sub: "set p \<subseteq> fst ` set deps" and prev: "set prev = set p"
    and len: "length p < length deps"
  shows "filter (ready prev p) deps \<noteq> []"
proof -
  have "card (set p) < card (fst ` set deps)"
    using dp dk len by (metis distinct_card length_map set_map)
  then have "fst ` set deps - set p \<noteq> {}"
    using sub by (metis Diff_eq_empty_iff card_mono finite_set not_le)
  then obtain x where x: "x \<in> fst ` set deps - set p" by auto
  have "wf (dep_edges deps)"
    using ac finite_dep_edges by (simp add: acyclic_deps_def finite_acyclic_wf)
  from wfE_min[OF this x] obtain z where z: "z \<in> fst ` set deps - set p"
    and zmin: "\<And>y. (y, z) \<in> dep_edges deps \<Longrightarrow> y \<notin> fst ` set deps - set p"
    by blast
  from z obtain e where e: "e \<in> set deps" "fst e = z" by auto
  have "ready prev p e"
    unfolding ready_def list_all_iff
  proof (intro conjI ballI)
    show "fst e \<notin> set p" using e z by simp
  next
    fix d assume d: "d \<in> set (dependsOn (snd e))"
    with e have "(d, z) \<in> dep_edges deps"
      by (auto simp: dep_edges_def intro!: exI[of _ "snd e"])
    from zmin[OF this] have "d \<notin> fst ` set deps - set p" .
    moreover from cl e d have "d \<in> fst ` set deps"
      by (auto simp: closed_deps_def list_all_iff)
    ultimately show "d \<in> set prev" using prev by simp
  qed
  with e show ?thesis by (auto simp: filter_empty_conv)
qed

lemma key_unique:
  "distinct (map fst deps) \<Longrightarrow> e \<in> set deps \<Longrightarrow> e' \<in> set deps \<Longrightarrow> fst e = fst e' \<Longrightarrow> e = e'"
  by (metis eq_key_imp_eq_value prod.collapse)

lemma normal_round_inv:
  assumes inv: "sorter_inv deps st" and dk: "distinct (map fst deps)"
    and sel: "sel = filter (ready (previousLayerModels st) (processed st)) deps"
    and ne: "sel \<noteq> []"
  shows "sorter_inv deps
           (finish_round st (map entry_of sel) (processed st @ map fst sel) (warnings st))"
proof -
  let ?ls = "layers st" and ?p = "processed st"
  let ?new = "\<lparr> layer_no = currentLayer st, models = map entry_of sel,
                 description = layer_description (currentLayer st) \<rparr>"
  let ?st' = "finish_round st (map entry_of sel) (?p @ map fst sel) (warnings st)"
  from inv have dp: "distinct ?p" and sub: "set ?p \<subseteq> fst ` set deps"
    and prev: "set (previousLayerModels st) = set ?p"
    and nos: "\<And>l. l \<in> set ?ls \<Longrightarrow> layer_no l < currentLayer st"
    and unplaced: "\<And>m. m \<notin> set ?p \<Longrightarrow> layer_index ?ls m = []"
    and placed: "\<And>e. e \<in> set deps \<Longrightarrow> fst e \<in> set ?p \<Longrightarrow> placed_ok ?ls (fst e) (snd e)"
    and w: "warnings st = []"
    by (auto simp: sorter_inv_def)
  have names: "layer_names ?new = map fst sel"
    by (simp add: layer_names_def comp_def)
  have sel_new: "\<And>e. e \<in> set sel \<Longrightarrow> e \<in> set deps \<and> fst e \<notin> set ?p \<and>
                   (\<forall>d \<in> set (dependsOn (snd e)). d \<in> set ?p)"
    using prev by (auto simp: sel ready_def list_all_iff)
  have st': "layers ?st' = ?ls @ [?new]" "processed ?st' = ?p @ map fst sel"
    "set (previousLayerModels ?st') = set ?p \<union> fst ` set sel"
    "currentLayer ?st' = currentLayer st + 1" "warnings ?st' = []"
    using ne prev w by (auto simp: finish_round_def comp_def)
  have idx_old: "layer_index (?ls @ [?new]) m = layer_index ?ls m" if "m \<in> set ?p" for m
    using that sel_new by (auto simp: layer_index_snoc names)
  have idx_new: "layer_index (?ls @ [?new]) m = [currentLayer st]" if "m \<in> fst ` set sel" for m
    using that sel_new unplaced by (auto simp: layer_index_snoc names)
  have idx_lt: "\<exists>j. layer_index (?ls @ [?new]) d = [j] \<and> j < currentLayer st" if "d \<in> set ?p" for d
  proof -
    from that sub obtain e where e: "e \<in> set deps" "fst e = d" by auto
    with placed[of e] that obtain j where j: "layer_index ?ls d = [j]"
      by (auto simp: placed_ok_iff)
    then have "j \<in> layer_no ` set ?ls" by (intro layer_index_in[of _ _ d]) simp
    with nos have "j < currentLayer st" by auto
    with j idx_old[OF that] show ?thesis by simp
  qed
  have "distinct (map fst sel)"
    unfolding sel using dk by (rule distinct_map_filter)
  then have 1: "distinct (processed ?st')"
    using dp sel_new by (auto simp: st')
  have 2: "set (processed ?st') \<subseteq> fst ` set deps"
    using sub sel_new by (auto simp: st')
  have 3: "set (previousLayerModels ?st') = set (processed ?st')"
    by (auto simp: st')
  have 4: "\<forall>l \<in> set (layers ?st'). layer_no l < currentLayer ?st'"
    using nos by (auto simp: st' less_SucI)
  have 5: "\<forall>m. m \<notin> set (processed ?st') \<longrightarrow> layer_index (layers ?st') m = []"
    using unplaced by (auto simp: st' layer_index_snoc names)
  have 6: "placed_ok (layers ?st') (fst e) (snd e)"
    if e: "e \<in> set deps" and pe: "fst e \<in> set (processed ?st')" for e
  proof (cases "fst e \<in> set ?p")
    case True
    from placed[OF e True] obtain k where k: "layer_index ?ls (fst e) = [k]"
      and ds: "\<And>d. d \<in> set (dependsOn (snd e)) \<Longrightarrow> \<exists>j. layer_index ?ls d = [j] \<and> j < k"
      by (auto simp: placed_ok_iff)
    have "\<exists>j. layer_index (?ls @ [?new]) d = [j] \<and> j < k" if d: "d \<in> set (dependsOn (snd e))" for d
    proof -
      from ds[OF d] obtain j where j: "layer_index ?ls d = [j]" "j < k" by auto
      with unplaced[of d] have "d \<in> set ?p" by auto
      from idx_old[OF this] j show ?thesis by simp
    qed
    with k idx_old[OF True] show ?thesis
      by (auto simp: placed_ok_iff st')
  next
    case False
    with pe obtain e' where e': "e' \<in> set sel" "fst e' = fst e" by (auto simp: st')
    with sel_new[of e'] e dk have "e' = e" by (auto intro: key_unique)
    with e' sel_new[of e] have ds: "\<And>d. d \<in> set (dependsOn (snd e)) \<Longrightarrow> d \<in> set ?p"
      and "fst e \<in> fst ` set sel" by auto
    from idx_new[OF this(2)] idx_lt[OF ds] show ?thesis
      by (auto simp: placed_ok_iff st')
  qed
  from 1 2 3 4 5 6 st'(5) show ?thesis
    unfolding sorter_inv_def by blast
qed

lemma sort_step_acyclic:
  assumes inv: "sorter_inv deps st" and ac: "acyclic_deps deps" and cl: "closed_deps deps"
    and dk: "distinct (map fst deps)" and len: "length (processed st) < length deps"
  shows "\<exists>st'. sort_step deps st = Some st' \<and> sorter_inv deps st'"
proof -
  define sel where "sel = filter (ready (previousLayerModels st) (processed st)) deps"
  from inv have "distinct (processed st)" "set (processed st) \<subseteq> fst ` set deps"
    "set (previousLayerModels st) = set (processed st)"
    by (auto simp: sorter_inv_def)
  from exists_ready[OF ac cl dk this len] have ne: "sel \<noteq> []" by (simp add: sel_def)
  have "sort_step deps st =
          Some (finish_round st (map entry_of sel) (processed st @ map fst sel) (warnings st))"
    using ne by (simp add: sort_step_def collect_round_closed[OF dk] sel_def)
  with normal_round_inv[OF inv dk sel_def ne] show ?thesis by simp
qed

lemma sort_loop_acyclic:
  assumes "sorter_inv deps st" "acyclic_deps deps" "closed_deps deps" "distinct (map fst deps)"
  shows "sorter_inv deps (sort_loop deps st) \<and>
         length deps \<le> length (processed (sort_loop deps st))"
  using assms
proof (induction deps st rule: sort_loop.induct)
  case (1 deps st)
  show ?case
  proof (cases "length (processed st) < length deps")
    case True
    from sort_step_acyclic[OF "1.prems" True] obtain st' where
      st': "sort_step deps st = Some st'" "sorter_inv deps st'" by auto
    from "1.IH"[OF True st'(1) st'(2) "1.prems"(2-4)] True st'(1) show ?thesis
      by (subst (1 2) sort_loop.simps) simp
  next
    case False
    with "1.prems"(1) show ?thesis
      by (subst (1 2) sort_loop.simps) simp
  qed
qed

lemma initial_inv:
  assumes dk: "distinct (map fst deps)"
    and sel: "sel = filter (\<lambda>e. dependsOn (snd e) = []) deps"
  shows "sorter_inv deps
     \<lparr> layers = (if length (map entry_of sel) > 0
                 then [\<lparr> layer_no = 1, models = map entry_of sel, description = txt \<rparr>]
                 else []),
       processed = [] @ map fst sel,
       previousLayerModels = fold set_add (map lm_name (map entry_of sel)) [],
       currentLayer = 2,
       warnings = [] \<rparr>"
proof -
  let ?ls = "if length (map entry_of sel) > 0
             then [\<lparr> layer_no = 1, models = map entry_of sel, description = txt \<rparr>]
             else []"
  have d: "distinct (map fst sel)"
    unfolding sel using dk by (rule distinct_map_filter)
  have names: "layer_names \<lparr> layer_no = n, models = map entry_of sel, description = txt \<rparr>
                 = map fst sel" for n
    by (simp add: layer_names_def comp_def)
  have idx: "layer_index ?ls m = (if m \<in> fst ` set sel then [1] else [])" for m
    by (auto simp: layer_index_def names)
  have ok: "placed_ok ?ls (fst e) (snd e)" if "e \<in> set deps" "fst e \<in> fst ` set sel" for e
  proof -
    from that obtain e' where e': "e' \<in> set sel" "fst e' = fst e" by auto
    with that dk have "e' = e" by (auto simp: sel intro: key_unique)
    with e' have "dependsOn (snd e) = []" by (auto simp: sel)
    with that(2) show ?thesis
      unfolding placed_ok_iff idx by simp
  qed
  have sub: "fst ` set sel \<subseteq> fst ` set deps"
    by (auto simp: sel)
  show ?thesis
    unfolding sorter_inv_def using d ok sub
    by (simp add: idx comp_def del: length_map length_greater_0_conv)
qed

text \<open>
  Property X1. For every dependency map with distinct keys that has no cycle and in which
  every name in a \<open>dependsOn\<close> list is a model of the map, \<open>sort\<close> puts every model in
  exactly one layer, each dependency of a model lies in exactly one layer of a strictly
  smaller number, and no warning is written.
\<close>

theorem sort_acyclic_layers:
  assumes dk: "distinct (map fst deps)" and cl: "closed_deps deps" and ac: "acyclic_deps deps"
  shows "list_all (\<lambda>e. placed_ok (fst (sorter_sort deps)) (fst e) (snd e)) deps \<and>
         snd (sorter_sort deps) = []"
proof -
  define sel where "sel = filter (\<lambda>e. dependsOn (snd e) = []) deps"
  define st0 where "st0 =
     \<lparr> layers = (if length (map entry_of sel) > 0
                 then [\<lparr> layer_no = 1, models = map entry_of sel,
                         description = ''Models with only primary entities (no foreign dependencies).'' \<rparr>]
                 else []),
       processed = [] @ map fst sel,
       previousLayerModels = fold set_add (map lm_name (map entry_of sel)) [],
       currentLayer = 2,
       warnings = [] \<rparr>"
  have inv0: "sorter_inv deps st0"
    unfolding st0_def by (rule initial_inv[OF dk sel_def])
  have run: "sorter_sort deps = (layers (sort_loop deps st0), warnings (sort_loop deps st0))"
    using collect_layer1_closed[OF dk, of "[]" "[]"]
    by (simp add: sorter_sort_def st0_def sel_def Let_def)
  from sort_loop_acyclic[OF inv0 ac cl dk] have inv: "sorter_inv deps (sort_loop deps st0)"
    and len: "length deps \<le> length (processed (sort_loop deps st0))" by auto
  let ?p = "processed (sort_loop deps st0)"
  from inv have "distinct ?p" "set ?p \<subseteq> fst ` set deps" by (auto simp: sorter_inv_def)
  with len dk have "set ?p = fst ` set deps"
    by (metis card_subset_eq distinct_card finite_imageI finite_set le_antisym card_mono length_map set_map)
  with inv have "\<forall>e \<in> set deps. placed_ok (layers (sort_loop deps st0)) (fst e) (snd e)"
    and "warnings (sort_loop deps st0) = []"
    by (auto simp: sorter_inv_def)
  then show ?thesis by (simp add: run list_all_iff)
qed

lemma acyclic_deps_rankI:
  assumes "\<And>m info d. (m, info) \<in> set deps \<Longrightarrow> d \<in> set (dependsOn info) \<Longrightarrow> f d < (f m :: nat)"
  shows "acyclic_deps deps"
proof -
  have "dep_edges deps \<subseteq> measure f"
    using assms by (auto simp: dep_edges_def)
  then have "wf (dep_edges deps)" by (rule wf_subset[OF wf_measure])
  then show ?thesis by (simp add: acyclic_deps_def wf_acyclic)
qed

text \<open>
  Witness for X1: the chain \<open>a\<close>, \<open>b\<close> (on \<open>a\<close>), \<open>c\<close> (on \<open>a\<close> and \<open>b\<close>),
  listed with \<open>c\<close> first, is laid out in three layers.
\<close>

theorem sort_acyclic_layers_witness:
  "distinct (map fst chain_deps) \<and> closed_deps chain_deps \<and> acyclic_deps chain_deps \<and>
   list_all (\<lambda>e. placed_ok (fst (sorter_sort chain_deps)) (fst e) (snd e)) chain_deps \<and>
   snd (sorter_sort chain_deps) = [] \<and>
   map (\<lambda>l. (layer_no l, layer_names l)) (fst (sorter_sort chain_deps))
     = [(1, [''a'']), (2, [''b'']), (3, [''c''])]"
proof -
  have h1: "distinct (map fst chain_deps)"
    by (simp add: chain_deps_def dep_entry_def)
  have h2: "closed_deps chain_deps"
    by (simp add: closed_deps_def chain_deps_def dep_entry_def)
  have h3: "acyclic_deps chain_deps"
    by (rule acyclic_deps_rankI
          [where f = "\<lambda>s. if s = ''a'' then 0 else if s = ''b'' then 1 else 2"])
       (auto simp: chain_deps_def dep_entry_def)
  have v: "map (\<lambda>l. (layer_no l, layer_names l)) (fst (sorter_sort chain_deps))
             = [(1, [''a'']), (2, [''b'']), (3, [''c''])]"
    by code_simp
  from sort_acyclic_layers[OF h1 h2 h3] h1 h2 h3 v show ?thesis by simp
qed

text \<open>
  Without the second condition the layering is lost. The map \<open>b\<close> (on \<open>a\<close>), \<open>c\<close> (on
  \<open>b\<close>) has no cycle, but \<open>a\<close> is not a model of the map. No round can place \<open>b\<close>, the
  cycle-breaking round puts \<open>b\<close> and \<open>c\<close> together in layer 2, and \<open>c\<close> is not in a later
  layer than its dependency \<open>b\<close>.
\<close>

theorem sort_dangling_dependency:
  "distinct (map fst dangling_deps) \<and> acyclic_deps dangling_deps \<and>
   layer_index (fst (sorter_sort dangling_deps)) ''b'' = [2] \<and>
   layer_index (fst (sorter_sort dangling_deps)) ''c'' = [2] \<and>
   \<not> list_all (\<lambda>e. placed_ok (fst (sorter_sort dangling_deps)) (fst e) (snd e)) dangling_deps"
proof -
  have h1: "distinct (map fst dangling_deps)"
    by (simp add: dangling_deps_def dep_entry_def)
  have h3: "acyclic_deps dangling_deps"
    by (rule acyclic_deps_rankI
          [where f = "\<lambda>s. if s = ''a'' then 0 else if s = ''b'' then 1 else 2"])
       (auto simp: dangling_deps_def dep_entry_def)
  have b: "layer_index (fst (sorter_sort dangling_deps)) ''b'' = [2]"
    by code_simp
  have c: "layer_index (fst (sorter_sort dangling_deps)) ''c'' = [2]"
    by code_simp
  have n: "\<not> list_all (\<lambda>e. placed_ok (fst (sorter_sort dangling_deps)) (fst e) (snd e))
               dangling_deps"
    by code_simp
  from h1 h3 b c n show ?thesis by simp
qed

lemma is_cycle_successor:
  assumes "is_cycle deps c" "m \<in> set c"
  shows "\<exists>d \<in> set c. depends_on deps m d"
proof -
  from assms(2) obtain i where i: "i < length c" "c ! i = m"
    by (auto simp: in_set_conv_nth)
  then have "(m, rotate1 c ! i) \<in> set (zip c (rotate1 c))"
    by (auto simp: set_zip intro!: exI[of _ i])
  with assms(1) have "depends_on deps m (rotate1 c ! i)"
    by (auto simp: is_cycle_def list_all_iff)
  moreover have "rotate1 c ! i \<in> set c"
    using i by (metis length_rotate1 nth_mem set_rotate1)
  ultimately show ?thesis by blast
qed

lemma remaining_length:
  assumes "distinct ks" "distinct p" "set p \<subseteq> set ks"
  shows "length p + length (filter (\<lambda>n. n \<notin> set p) ks) = length ks"
proof -
  have "set (filter (\<lambda>n. n \<in> set p) ks) = set p" using assms(3) by auto
  moreover have "distinct (filter (\<lambda>n. n \<in> set p) ks)" using assms(1) by simp
  ultimately have "length (filter (\<lambda>n. n \<in> set p) ks) = length p"
    using assms(2) by (metis distinct_card)
  with sum_length_filter_compl[of "\<lambda>n. n \<in> set p" ks] show ?thesis by simp
qed

lemma cycle_not_ready:
  assumes dk: "distinct (map fst deps)" and succ: "\<forall>m \<in> S. \<exists>d \<in> S. depends_on deps m d"
    and prev: "set prev \<inter> S = {}" and e: "e \<in> set deps" and r: "ready prev p e"
  shows "fst e \<notin> S"
proof
  assume "fst e \<in> S"
  with succ obtain d where d: "d \<in> S" "depends_on deps (fst e) d" by blast
  from dk e have "map_of deps (fst e) = Some (snd e)" by (cases e) simp
  with d have "d \<in> set (dependsOn (snd e))" by (simp add: depends_on_def)
  with r have "d \<in> set prev" by (auto simp: ready_def list_all_iff)
  with prev d show False by auto
qed

lemma cycle_step:
  assumes inv: "cycle_inv deps S st" and dk: "distinct (map fst deps)"
    and succ: "\<forall>m \<in> S. \<exists>d \<in> S. depends_on deps m d"
    and S: "S \<noteq> {}" "S \<subseteq> fst ` set deps"
  shows "\<exists>st'. sort_step deps st = Some st' \<and>
           (cycle_inv deps S st' \<or>
            (cycle_final S st' \<and> length (processed st') = length deps))"
proof -
  let ?p = "processed st" and ?prev = "previousLayerModels st"
  define sel where "sel = filter (ready ?prev ?p) deps"
  from inv have dp: "distinct ?p" and sub: "set ?p \<subseteq> fst ` set deps"
    and pS: "set ?p \<inter> S = {}" and prevS: "set ?prev \<inter> S = {}"
    and lS: "\<And>l. l \<in> set (layers st) \<Longrightarrow> set (layer_names l) \<inter> S = {}"
    and w: "warnings st = []"
    by (auto simp: cycle_inv_def)
  have selS: "fst ` set sel \<inter> S = {}"
    using cycle_not_ready[OF dk succ prevS] by (auto simp: sel_def)
  have sel_p: "fst ` set sel \<inter> set ?p = {}" by (auto simp: sel_def ready_def)
  have sel_sub: "fst ` set sel \<subseteq> fst ` set deps" by (auto simp: sel_def)
  have dsel: "distinct (map fst sel)"
    unfolding sel_def using dk by (rule distinct_map_filter)
  show ?thesis
  proof (cases "sel = []")
    case False
    let ?st' = "finish_round st (map entry_of sel) (?p @ map fst sel) (warnings st)"
    have step: "sort_step deps st = Some ?st'"
      using False by (simp add: sort_step_def collect_round_closed[OF dk] sel_def)
    have "layer_names \<lparr> layer_no = n, models = map entry_of sel, description = t \<rparr> = map fst sel"
      for n t by (simp add: layer_names_def comp_def)
    then have "cycle_inv deps S ?st'"
      using False dp sub pS prevS lS w selS sel_p sel_sub dsel
      unfolding cycle_inv_def finish_round_def
      by (auto simp: comp_def)
    with step show ?thesis by blast
  next
    case True
    define rem where "rem = filter (\<lambda>name. name \<notin> set ?p) (map fst deps)"
    have remS: "S \<subseteq> set rem" using S pS by (auto simp: rem_def)
    with S have ne: "rem \<noteq> []" by auto
    have "distinct rem" "set rem \<inter> set ?p = {}" "set rem \<subseteq> fst ` set deps"
      using dk by (auto simp: rem_def)
    note ar = add_remaining_closed[OF this]
    let ?cur2 = "map (\<lambda>n. layer_entry n (the (map_of deps n))) rem"
    let ?st' = "finish_round st ?cur2 (?p @ rem) (warnings st @ [circular_warning rem])"
    have step: "sort_step deps st = Some ?st'"
      using True ne
      by (simp add: sort_step_def collect_round_closed[OF dk] sel_def[symmetric]
            rem_def[symmetric] ar Let_def)
    have names: "layer_names \<lparr> layer_no = n, models = ?cur2, description = t \<rparr> = rem"
      for n t by (simp add: layer_names_def comp_def layer_entry_def)
    have fin: "cycle_final S ?st'"
      using ne remS lS w unfolding cycle_final_def finish_round_def
      by (auto simp: names)
    have "length ?p + length rem = length deps"
      unfolding rem_def using remaining_length[of "map fst deps" ?p] dk dp sub by simp
    then have "length (processed ?st') = length deps"
      using ne by (simp add: finish_round_def)
    with step fin show ?thesis by blast
  qed
qed

lemma cycle_loop:
  assumes "cycle_inv deps S st" "distinct (map fst deps)"
    "\<forall>m \<in> S. \<exists>d \<in> S. depends_on deps m d" "S \<noteq> {}" "S \<subseteq> fst ` set deps"
  shows "cycle_final S (sort_loop deps st)"
  using assms
proof (induction deps st rule: sort_loop.induct)
  case (1 deps st)
  from "1.prems" have "distinct (processed st)" "set (processed st) \<subseteq> fst ` set deps - S"
    by (auto simp: cycle_inv_def)
  then have "card (set (processed st)) \<le> card (fst ` set deps - S)"
    by (intro card_mono) auto
  also have "\<dots> < card (fst ` set deps)"
    using "1.prems"(4,5) by (intro psubset_card_mono) auto
  finally have len: "length (processed st) < length deps"
    using \<open>distinct (processed st)\<close> "1.prems"(2)
    by (metis distinct_card length_map set_map)
  from cycle_step[OF "1.prems"] obtain st' where st': "sort_step deps st = Some st'"
    and alt: "cycle_inv deps S st' \<or> (cycle_final S st' \<and> length (processed st') = length deps)"
    by blast
  from alt show ?case
  proof
    assume "cycle_inv deps S st'"
    from "1.IH"[OF len st' this "1.prems"(2-5)] len st' show ?thesis
      by (subst sort_loop.simps) simp
  next
    assume fin: "cycle_final S st' \<and> length (processed st') = length deps"
    then have "sort_loop deps st' = st'" by (subst sort_loop.simps) simp
    with fin len st' show ?thesis by (subst sort_loop.simps) simp
  qed
qed

text \<open>
  C2. For every dependency map (distinct keys) with a cycle \<open>c\<close>, \<open>sort\<close> returns (the
  loop is a total function), every member of the cycle is in exactly one layer, that
  layer is the last layer of the result, and the only output besides the layers is one
  warning that names the models of that last layer, the cycle's members among them.
\<close>

theorem sort_cycle_final_layer:
  assumes dk: "distinct (map fst deps)" and cyc: "is_cycle deps c"
  shows "fst (sorter_sort deps) \<noteq> [] \<and>
         list_all (\<lambda>m. layer_index (fst (sorter_sort deps)) m
                          = [layer_no (last (fst (sorter_sort deps)))]) c \<and>
         set c \<subseteq> set (layer_names (last (fst (sorter_sort deps)))) \<and>
         snd (sorter_sort deps) = [circular_warning (layer_names (last (fst (sorter_sort deps))))]"
proof -
  define sel where "sel = filter (\<lambda>e. dependsOn (snd e) = []) deps"
  define st0 where "st0 =
     \<lparr> layers = (if length (map entry_of sel) > 0
                 then [\<lparr> layer_no = 1, models = map entry_of sel,
                         description = ''Models with only primary entities (no foreign dependencies).'' \<rparr>]
                 else []),
       processed = [] @ map fst sel,
       previousLayerModels = fold set_add (map lm_name (map entry_of sel)) [],
       currentLayer = 2,
       warnings = [] \<rparr>"
  have run: "sorter_sort deps = (layers (sort_loop deps st0), warnings (sort_loop deps st0))"
    using collect_layer1_closed[OF dk, of "[]" "[]"]
    by (simp add: sorter_sort_def st0_def sel_def Let_def)
  have succ: "\<forall>m \<in> set c. \<exists>d \<in> set c. depends_on deps m d"
    using is_cycle_successor[OF cyc] by blast
  have ne: "set c \<noteq> {}" using cyc by (simp add: is_cycle_def)
  have sub: "set c \<subseteq> fst ` set deps"
  proof
    fix m assume "m \<in> set c"
    with succ obtain d where "depends_on deps m d" by blast
    then show "m \<in> fst ` set deps"
      by (cases "map_of deps m") (auto simp: depends_on_def dest: map_of_SomeD intro: rev_image_eqI)
  qed
  have selS: "fst ` set sel \<inter> set c = {}"
  proof -
    have False if "e \<in> set sel" "fst e \<in> set c" for e
    proof -
      from that succ obtain d where d: "depends_on deps (fst e) d" by blast
      from that have e: "e \<in> set deps" "dependsOn (snd e) = []" by (auto simp: sel_def)
      with dk have "map_of deps (fst e) = Some (snd e)" by (cases e) simp
      with d e show False by (simp add: depends_on_def)
    qed
    then show ?thesis by auto
  qed
  have "distinct (map fst sel)"
    unfolding sel_def using dk by (rule distinct_map_filter)
  moreover have "layer_names \<lparr> layer_no = n, models = map entry_of sel, description = t \<rparr> = map fst sel"
    for n t by (simp add: layer_names_def comp_def)
  ultimately have inv0: "cycle_inv deps (set c) st0"
    using selS unfolding cycle_inv_def st0_def
    by (auto simp: comp_def sel_def)
  from cycle_loop[OF inv0 dk succ ne sub] have fin: "cycle_final (set c) (sort_loop deps st0)" .
  let ?ls = "layers (sort_loop deps st0)"
  from fin have ls: "?ls \<noteq> []" and last: "set c \<subseteq> set (layer_names (last ?ls))"
    and rest: "\<And>l. l \<in> set (butlast ?ls) \<Longrightarrow> set (layer_names l) \<inter> set c = {}"
    and w: "warnings (sort_loop deps st0) = [circular_warning (layer_names (last ?ls))]"
    by (auto simp: cycle_final_def)
  have "layer_index ?ls m = [layer_no (last ?ls)]" if "m \<in> set c" for m
  proof -
    have "layer_index (butlast ?ls @ [last ?ls]) m = [layer_no (last ?ls)]"
      unfolding layer_index_snoc using that last rest
      by (auto simp: layer_index_def filter_empty_conv)
    with ls show ?thesis by simp
  qed
  with ls last w show ?thesis
    by (simp add: run list_all_iff)
qed

text \<open>
  Witness for C2: \<open>x\<close> and \<open>y\<close> depend on each other, \<open>z\<close> depends on \<open>x\<close>. Layer 1
  holds \<open>root\<close>; the last layer, numbered 2, holds \<open>x\<close>, \<open>y\<close> and \<open>z\<close>.
\<close>

theorem sort_cycle_final_layer_witness:
  "distinct (map fst cyclic_deps) \<and> is_cycle cyclic_deps [''x'', ''y''] \<and>
   fst (sorter_sort cyclic_deps) \<noteq> [] \<and>
   list_all (\<lambda>m. layer_index (fst (sorter_sort cyclic_deps)) m
                    = [layer_no (last (fst (sorter_sort cyclic_deps)))]) [''x'', ''y''] \<and>
   set [''x'', ''y''] \<subseteq> set (layer_names (last (fst (sorter_sort cyclic_deps)))) \<and>
   snd (sorter_sort cyclic_deps)
     = [circular_warning (layer_names (last (fst (sorter_sort cyclic_deps))))] \<and>
   map (\<lambda>l. (layer_no l, layer_names l)) (fst (sorter_sort cyclic_deps))
     = [(1, [''root'']), (2, [''x'', ''y'', ''z''])] \<and>
   snd (sorter_sort cyclic_deps)
     = [''Warning: Circular dependencies detected for models: x, y, z.'']"
proof -
  have h1: "distinct (map fst cyclic_deps)"
    by (simp add: cyclic_deps_def dep_entry_def)
  have h2: "is_cycle cyclic_deps [''x'', ''y'']"
    by (simp add: is_cycle_def depends_on_def cyclic_deps_def dep_entry_def)
  have v: "map (\<lambda>l. (layer_no l, layer_names l)) (fst (sorter_sort cyclic_deps))
             = [(1, [''root'']), (2, [''x'', ''y'', ''z''])]"
    by code_simp
  have w: "snd (sorter_sort cyclic_deps)
             = [''Warning: Circular dependencies detected for models: x, y, z.'']"
    by code_simp
  from sort_cycle_final_layer[OF h1 h2] h1 h2 v w show ?thesis by simp
qed

section \<open>The dependency graph builder (\<open>SemanticModelAnalyzer\<close>)\<close>

text \<open>
  The parsed YAML of a semantic model: entities and measures as the analyzer and the
  metric resolver read them. An absent list is the empty list (the code guards every
  access with \<open>if (semanticModel.entities)\<close> or \<open>?.\<close>); an optional field is an
  \<open>option\<close>.
\<close>

record entity =
  e_name :: string
  e_type :: string
  e_expr :: "string option"

record measure =
  m_name :: string
  m_agg :: string
  m_expr :: "string option"
  m_description :: "string option"

record semantic_model =
  sm_name :: string
  sm_description :: "string option"
  sm_entities :: "entity list"
  sm_measures :: "measure list"

text \<open>A source file: its base name and its \<open>semantic_models\<close>.\<close>

type_synonym source_file = "string \<times> semantic_model list"

text \<open>\<open>entityToFileMap\<close>: entity name to \<open>(fileName, semanticModelName)\<close>.\<close>

type_synonym entity_index = "(string \<times> string \<times> string) list"

text \<open>\<open>Map.prototype.set\<close>: an existing key keeps its place and gets the new value.\<close>

fun map_set :: "'k \<Rightarrow> 'v \<Rightarrow> ('k \<times> 'v) list \<Rightarrow> ('k \<times> 'v) list" where
  "map_set k v [] = [(k, v)]"
| "map_set k v ((k', v') # kvs) = (if k' = k then (k, v) # kvs else (k', v') # map_set k v kvs)"

text \<open>\<open>buildEntityToFileMap\<close>: where each entity is declared primary or unique.\<close>

definition index_entity :: "string \<Rightarrow> string \<Rightarrow> entity_index \<Rightarrow> entity \<Rightarrow> entity_index" where
  "index_entity fileName semanticModelName idx ent =
     (if e_type ent = ''primary'' \<or> e_type ent = ''unique''
      then map_set (e_name ent) (fileName, semanticModelName) idx
      else idx)"

definition index_model :: "string \<Rightarrow> entity_index \<Rightarrow> semantic_model \<Rightarrow> entity_index" where
  "index_model fileName idx sm = foldl (index_entity fileName (sm_name sm)) idx (sm_entities sm)"

definition buildEntityToFileMap :: "source_file list \<Rightarrow> entity_index" where
  "buildEntityToFileMap files =
     foldl (\<lambda>idx (fileName, sms). foldl (index_model fileName) idx sms) [] files"

datatype analyzer_error = NoSemanticModels string

text \<open>\<open>entity.expr || null\<close>.\<close>

definition js_or_null :: "string option \<Rightarrow> string option" where
  "js_or_null v = (case v of Some s \<Rightarrow> (if s = [] then None else Some s) | None \<Rightarrow> None)"

text \<open>
  \<open>parseSemanticModel\<close>: the body of \<open>semanticModel.entities.forEach\<close>, then the
  model, then the file. A file without semantic models is an error.
\<close>

definition extract_entity :: "entity_index \<Rightarrow> model_info \<Rightarrow> entity \<Rightarrow> model_info" where
  "extract_entity entityToFileMap info ent =
     (let info1 = info \<lparr> mi_allEntities := mi_allEntities info @ [e_name ent] \<rparr> in
      if e_type ent = ''primary'' then info1 \<lparr> mi_primaryEntity := Some (e_name ent) \<rparr>
      else if e_type ent = ''foreign'' then
        info1 \<lparr> mi_foreignEntities := mi_foreignEntities info1 @
          [case map_of entityToFileMap (e_name ent) of
             Some (fileName, semanticModelName) \<Rightarrow>
               \<lparr> fe_name = e_name ent, fe_expr = js_or_null (e_expr ent),
                 fe_file = Some fileName, fe_semanticModelName = Some semanticModelName \<rparr>
           | None \<Rightarrow>
               \<lparr> fe_name = e_name ent, fe_expr = js_or_null (e_expr ent),
                 fe_file = None, fe_semanticModelName = None \<rparr>] \<rparr>
      else info1)"

definition parse_model :: "entity_index \<Rightarrow> string \<Rightarrow> semantic_model \<Rightarrow> model_info" where
  "parse_model entityToFileMap fileName sm =
     foldl (extract_entity entityToFileMap)
       \<lparr> mi_fileName = fileName, mi_name = sm_name sm, mi_description = sm_description sm,
         mi_primaryEntity = None, mi_foreignEntities = [], mi_allEntities = [] \<rparr>
       (sm_entities sm)"

definition parseSemanticModel ::
  "entity_index \<Rightarrow> source_file \<Rightarrow> analyzer_error + model_info list" where
  "parseSemanticModel entityToFileMap file =
     (case file of (fileName, sms) \<Rightarrow>
        if length sms = 0 then Inl (NoSemanticModels fileName)
        else Inr (map (parse_model entityToFileMap fileName) sms))"

text \<open>
  \<open>analyzeDirectory\<close>: the index first, then every file; a file that fails to parse is
  logged and skipped.
\<close>

definition analyzeDirectory :: "source_file list \<Rightarrow> (string \<times> model_info) list" where
  "analyzeDirectory files =
     (let entityToFileMap = buildEntityToFileMap files in
      foldl (\<lambda>acc file.
               case parseSemanticModel entityToFileMap file of
                 Inl err \<Rightarrow> acc
               | Inr modelInfos \<Rightarrow>
                   foldl (\<lambda>ms modelInfo. map_set (mi_name modelInfo) modelInfo ms) acc modelInfos)
        [] files)"

text \<open>
  \<open>buildDependencyGraph\<close>: one record per model, \<open>dependsOn\<close> the names of its foreign
  entities; then the reverse edges, only toward names that are keys of the map.
\<close>

definition add_dependent :: "string \<Rightarrow> dependencies \<Rightarrow> string \<Rightarrow> dependencies" where
  "add_dependent modelName deps dependency =
     (case map_of deps dependency of
        Some depInfo \<Rightarrow>
          map_set dependency (depInfo \<lparr> dependents := dependents depInfo @ [modelName] \<rparr>) deps
      | None \<Rightarrow> deps)"

definition buildDependencyGraph :: "(string \<times> model_info) list \<Rightarrow> dependencies" where
  "buildDependencyGraph analyzed =
     (let deps0 = foldl (\<lambda>deps (modelName, info).
                     map_set modelName
                       \<lparr> modelInfo = info,
                         dependsOn = map fe_name (mi_foreignEntities info),
                         dependents = [] \<rparr> deps) [] analyzed
      in foldl (\<lambda>deps (modelName, depInfo).
                  foldl (add_dependent modelName) deps (dependsOn depInfo)) deps0 deps0)"






text \<open>A record of the dependency map, seen as the model name and its \<open>dependsOn\<close>.\<close>

definition dep_view :: "string \<times> dep_info \<Rightarrow> string \<times> string list" where
  "dep_view e = (fst e, dependsOn (snd e))"








subsection \<open>From the analyzed directory to the layers\<close>

text \<open>
  A directory of three models: \<open>customers\<close> declares the primary entity \<open>customer\<close>,
  \<open>order\<close> declares \<open>order\<close> and refers to \<open>customer\<close>, \<open>order_item\<close> refers to \<open>order\<close>.
  The dependency map that the graph builder hands to the sorter holds entity names; the
  entity \<open>customer\<close> is not the name of a model.
\<close>

definition shop_corpus :: "source_file list" where
  "shop_corpus =
    [(''customers'',
        [\<lparr> sm_name = ''customers'', sm_description = None,
            sm_entities = [\<lparr> e_name = ''customer'', e_type = ''primary'', e_expr = None \<rparr>],
            sm_measures = [] \<rparr>]),
     (''order'',
        [\<lparr> sm_name = ''order'', sm_description = None,
            sm_entities = [\<lparr> e_name = ''order'', e_type = ''primary'', e_expr = None \<rparr>,
                           \<lparr> e_name = ''customer'', e_type = ''foreign'', e_expr = None \<rparr>],
            sm_measures = [] \<rparr>]),
     (''order_item'',
        [\<lparr> sm_name = ''order_item'', sm_description = None,
            sm_entities = [\<lparr> e_name = ''order_item'', e_type = ''primary'', e_expr = None \<rparr>,
                           \<lparr> e_name = ''order'', e_type = ''foreign'', e_expr = None \<rparr>],
            sm_measures = [] \<rparr>])]"

definition shop_deps :: dependencies where
  "shop_deps = buildDependencyGraph (analyzeDirectory shop_corpus)"

text \<open>
  Claim C1, evaluated on the dependency map of this directory. The map has no cycle, but the
  dependency \<open>customer\<close> of \<open>order\<close> is not a key of the map, so no round finds \<open>order\<close>
  ready. The cycle-breaking round puts \<open>order\<close> and \<open>order_item\<close> together in layer 2,
  although \<open>order_item\<close> depends on \<open>order\<close>; the sorter warns of circular dependencies
  and describes the layer as depending only on layer 1.
\<close>

theorem sort_unresolved_dependency_shared_layer:
  "map dep_view shop_deps
     = [(''customers'', []), (''order'', [''customer'']), (''order_item'', [''order''])] \<and>
   acyclic_deps shop_deps \<and>
   map (\<lambda>l. (layer_no l, layer_names l)) (fst (sorter_sort shop_deps))
     = [(1, [''customers'']), (2, [''order'', ''order_item''])] \<and>
   layer_index (fst (sorter_sort shop_deps)) ''order'' = [2] \<and>
   layer_index (fst (sorter_sort shop_deps)) ''order_item'' = [2] \<and>
   snd (sorter_sort shop_deps) = [circular_warning [''order'', ''order_item'']] \<and>
   description (last (fst (sorter_sort shop_deps)))
     = ''Models that depend only on entities from layers 1-1''"
proof -
  have v: "map dep_view shop_deps
     = [(''customers'', []), (''order'', [''customer'']), (''order_item'', [''order''])]"
    by code_simp
  have ac: "acyclic_deps shop_deps"
  proof (rule acyclic_deps_rankI
          [where f = "\<lambda>s. if s = ''customer'' then 0 else if s = ''order'' then 1 else 2"])
    fix m info d
    assume "(m, info) \<in> set shop_deps" and d: "d \<in> set (dependsOn info)"
    then have "dep_view (m, info) \<in> set (map dep_view shop_deps)" by (metis imageI set_map)
    with d show "(if d = ''customer'' then 0 else if d = ''order'' then 1 else 2)
                   < (if m = ''customer'' then 0 else if m = ''order'' then 1 else (2::nat))"
      unfolding v by (auto simp: dep_view_def)
  qed
  have l: "map (\<lambda>l. (layer_no l, layer_names l)) (fst (sorter_sort shop_deps))
     = [(1, [''customers'']), (2, [''order'', ''order_item''])]"
    by code_simp
  have i1: "layer_index (fst (sorter_sort shop_deps)) ''order'' = [2]" by code_simp
  have i2: "layer_index (fst (sorter_sort shop_deps)) ''order_item'' = [2]" by code_simp
  have w: "snd (sorter_sort shop_deps) = [circular_warning [''order'', ''order_item'']]"
    by code_simp
  have ds: "description (last (fst (sorter_sort shop_deps)))
              = ''Models that depend only on entities from layers 1-1''"
    by code_simp
  from v ac l i1 i2 w ds show ?thesis by (intro conjI)
qed

section \<open>The expression translator\<close>

subsection \<open>String primitives\<close>

text \<open>The white space of \<open>\\s\<close> and \<open>trim\<close> among the characters of the model.\<close>

definition is_space :: "char \<Rightarrow> bool" where
  "is_space c = (c \<in> {CHR '' '', CHR 0x09, CHR 0x0A, CHR 0x0B, CHR 0x0C, CHR 0x0D, CHR 0xA0})"

definition char_code :: "char \<Rightarrow> nat" where
  "char_code c = of_char c"

definition is_upper :: "char \<Rightarrow> bool" where
  "is_upper c = (65 \<le> char_code c \<and> char_code c \<le> 90)"

definition is_lower :: "char \<Rightarrow> bool" where
  "is_lower c = (97 \<le> char_code c \<and> char_code c \<le> 122)"

definition is_digit :: "char \<Rightarrow> bool" where
  "is_digit c = (48 \<le> char_code c \<and> char_code c \<le> 57)"

definition ident_start :: "char \<Rightarrow> bool" where
  "ident_start c = (is_upper c \<or> is_lower c \<or> c = CHR ''_'')"

definition word_char :: "char \<Rightarrow> bool" where
  "word_char c = (ident_start c \<or> is_digit c)"

definition lower_char :: "char \<Rightarrow> char" where
  "lower_char c = (if is_upper c then char_of (char_code c + 32) else c)"

definition toLowerCase :: "string \<Rightarrow> string" where
  "toLowerCase s = map lower_char s"

definition trim :: "string \<Rightarrow> string" where
  "trim s = rev (dropWhile is_space (rev (dropWhile is_space s)))"

fun collapse_ws :: "bool \<Rightarrow> string \<Rightarrow> string" where
  "collapse_ws in_run [] = []"
| "collapse_ws in_run (c # cs) =
     (if is_space c then (if in_run then collapse_ws True cs else CHR '' '' # collapse_ws True cs)
      else c # collapse_ws False cs)"

definition normalize_ws :: "string \<Rightarrow> string" where
  "normalize_ws s = trim (collapse_ws False s)"

definition substring :: "string \<Rightarrow> nat \<Rightarrow> nat \<Rightarrow> string" where
  "substring s a b =
     (let a' = min a (length s); b' = min b (length s)
      in take (max a' b' - min a' b') (drop (min a' b') s))"

definition starts_with :: "string \<Rightarrow> string \<Rightarrow> bool" where
  "starts_with s sub = (take (length sub) s = sub)"

definition ends_with :: "string \<Rightarrow> string \<Rightarrow> bool" where
  "ends_with s sub = (length sub \<le> length s \<and> drop (length s - length sub) s = sub)"

fun find_sub :: "string \<Rightarrow> string \<Rightarrow> nat option" where
  "find_sub sub [] = (if sub = [] then Some 0 else None)"
| "find_sub sub (c # cs) =
     (if starts_with (c # cs) sub then Some 0 else map_option Suc (find_sub sub cs))"

definition indexOf :: "string \<Rightarrow> string \<Rightarrow> nat \<Rightarrow> nat option" where
  "indexOf s sub from = map_option (\<lambda>i. i + from) (find_sub sub (drop from s))"

definition lastIndexOf :: "string \<Rightarrow> string \<Rightarrow> nat option" where
  "lastIndexOf s sub =
     map_option (\<lambda>j. length s - j - length sub) (find_sub (rev sub) (rev s))"

type_synonym jsval = "string option"

definition truthy :: "jsval \<Rightarrow> bool" where
  "truthy v = (case v of None \<Rightarrow> False | Some s \<Rightarrow> s \<noteq> [])"

definition template :: "jsval \<Rightarrow> string" where
  "template v = (case v of None \<Rightarrow> ''null'' | Some s \<Rightarrow> s)"

definition join_item :: "jsval \<Rightarrow> string" where
  "join_item v = (case v of None \<Rightarrow> [] | Some s \<Rightarrow> s)"

subsection \<open>findMatchingClosingParen, parseFunctionArguments\<close>

fun scan_close :: "nat \<Rightarrow> nat \<Rightarrow> string \<Rightarrow> nat option" where
  "scan_close depth i [] = None"
| "scan_close depth i (c # cs) =
     (if c = CHR ''('' then scan_close (depth + 1) (i + 1) cs
      else if c = CHR '')'' then
        (if depth = 0 then Some i else scan_close (depth - 1) (i + 1) cs)
      else scan_close depth (i + 1) cs)"

definition findMatchingClosingParen :: "string \<Rightarrow> nat \<Rightarrow> nat option" where
  "findMatchingClosingParen expr startPos = scan_close 0 startPos (drop startPos expr)"

record arg_state =
  args :: "string list"
  currentArg :: string
  inString :: bool
  stringChar :: "char option"
  parenDepth :: int

definition is_quote :: "char \<Rightarrow> bool" where
  "is_quote c = (c = CHR 0x22 \<or> c = CHR 0x27)"

definition arg_step :: "arg_state \<Rightarrow> char \<Rightarrow> arg_state" where
  "arg_step st c =
     (if \<not> inString st \<and> is_quote c then
        st \<lparr> inString := True, stringChar := Some c, currentArg := currentArg st @ [c] \<rparr>
      else if inString st \<and> Some c = stringChar st then
        st \<lparr> inString := False, stringChar := None, currentArg := currentArg st @ [c] \<rparr>
      else if \<not> inString st \<and> c = CHR ''('' then
        st \<lparr> parenDepth := parenDepth st + 1, currentArg := currentArg st @ [c] \<rparr>
      else if \<not> inString st \<and> c = CHR '')'' then
        st \<lparr> parenDepth := parenDepth st - 1, currentArg := currentArg st @ [c] \<rparr>
      else if \<not> inString st \<and> parenDepth st = 0 \<and> c = CHR '','' then
        st \<lparr> args := args st @ [trim (currentArg st)], currentArg := [] \<rparr>
      else st \<lparr> currentArg := currentArg st @ [c] \<rparr>)"

definition parseFunctionArguments :: "string \<Rightarrow> string list" where
  "parseFunctionArguments argsStr =
     (let st = foldl arg_step
                 \<lparr> args = [], currentArg = [], inString = False, stringChar = None,
                   parenDepth = 0 \<rparr> argsStr
      in if trim (currentArg st) \<noteq> [] then args st @ [trim (currentArg st)] else args st)"

subsection \<open>convertColumnReferences\<close>

definition sigmaFunctions :: "string list" where
  "sigmaFunctions =
    [''splitpart'',
     ''SUBSTRING'', ''substring'', ''SUBSTR'', ''substr'',
     ''CONCAT'', ''concat'', ''CONCAT_WS'', ''concat_ws'',
     ''UPPER'', ''upper'', ''LOWER'', ''lower'',
     ''TRIM'', ''trim'', ''LTRIM'', ''ltrim'', ''RTRIM'', ''rtrim'',
     ''COALESCE'', ''coalesce'', ''NULLIF'', ''nullif'',
     ''CASE'', ''case'', ''WHEN'', ''when'', ''THEN'', ''then'', ''ELSE'', ''else'', ''END'', ''end'',
     ''IF'', ''if'', ''AND'', ''and'', ''OR'', ''or'', ''NOT'', ''not'',
     ''IS'', ''is'', ''NULL'', ''null'',
     ''DATE_TRUNC'', ''date_trunc'', ''DATE_PART'', ''date_part'',
     ''EXTRACT'', ''extract'', ''TO_DATE'', ''to_date'', ''TO_TIMESTAMP'', ''to_timestamp'',
     ''CAST'', ''cast'', ''::'']"

definition convertToUserFriendlyName :: "string \<Rightarrow> string" where
  "convertToUserFriendlyName name = map (\<lambda>c. if c = CHR ''_'' then CHR '' '' else c) name"

function ident_matches :: "bool \<Rightarrow> nat \<Rightarrow> string \<Rightarrow> (nat \<times> string) list" where
  "ident_matches prev_word i [] = []"
| "ident_matches prev_word i (c # cs) =
     (if \<not> prev_word \<and> ident_start c
      then (i, c # takeWhile word_char cs)
             # ident_matches True (i + 1 + length (takeWhile word_char cs)) (dropWhile word_char cs)
      else ident_matches (word_char c) (i + 1) cs)"
  by pat_completeness auto
termination
  by (relation "measure (\<lambda>(p, i, s). length s)")
     (auto simp: length_dropWhile_le less_Suc_eq_le)

definition count_char :: "char \<Rightarrow> string \<Rightarrow> nat" where
  "count_char c s = length (filter (\<lambda>x. x = c) s)"

definition skip_identifier :: "string \<Rightarrow> nat \<times> string \<Rightarrow> bool" where
  "skip_identifier converted m =
     (case m of (startPos, identifier) \<Rightarrow>
        let endPos = startPos + length identifier;
            beforeText = substring converted 0 startPos
        in toLowerCase identifier \<in> set sigmaFunctions \<or>
           count_char (CHR 0x27) beforeText mod 2 = 1 \<or> count_char (CHR 0x22) beforeText mod 2 = 1 \<or>
           (case (lastIndexOf beforeText ''['', indexOf (drop endPos converted) '']'' 0) of
              (Some beforeBrackets, Some afterBrackets) \<Rightarrow> beforeBrackets < startPos
            | _ \<Rightarrow> False))"

definition replacement_of :: "bool \<Rightarrow> nat \<times> string \<Rightarrow> nat \<times> nat \<times> string" where
  "replacement_of friendly m =
     (case m of (startPos, identifier) \<Rightarrow>
        (startPos, startPos + length identifier,
         ''['' @ (if friendly then convertToUserFriendlyName identifier else identifier) @ '']''))"

definition apply_replacement :: "string \<Rightarrow> nat \<times> nat \<times> string \<Rightarrow> string" where
  "apply_replacement converted r =
     (case r of (start, end, replacement) \<Rightarrow>
        substring converted 0 start @ replacement @ drop end converted)"

definition convertColumnReferences :: "bool \<Rightarrow> string \<Rightarrow> string" where
  "convertColumnReferences friendly expr =
     (let converted = normalize_ws expr;
          replacements = map (replacement_of friendly)
                           (filter (\<lambda>m. \<not> skip_identifier converted m)
                              (ident_matches False 0 converted))
      in foldl apply_replacement converted (rev (sort_key fst replacements)))"


subsection \<open>convertCase\<close>

fun case_word :: "bool \<Rightarrow> string \<Rightarrow> bool" where
  "case_word prev_word [] = False"
| "case_word prev_word (c # cs) =
     ((\<not> prev_word \<and> toLowerCase (take 4 (c # cs)) = ''case'' \<and>
       (case drop 4 (c # cs) of [] \<Rightarrow> True | d # ds \<Rightarrow> \<not> word_char d))
      \<or> case_word (word_char c) cs)"

fun find_then :: "int \<Rightarrow> bool \<Rightarrow> char option \<Rightarrow> nat \<Rightarrow> string \<Rightarrow> nat option" where
  "find_then depth inStr strChar i [] = None"
| "find_then depth inStr strChar i (c # cs) =
     (if \<not> inStr \<and> is_quote c then find_then depth True (Some c) (i + 1) cs
      else if inStr \<and> Some c = strChar then find_then depth False None (i + 1) cs
      else if \<not> inStr then
        (if c = CHR ''('' then find_then (depth + 1) inStr strChar (i + 1) cs
         else if c = CHR '')'' then find_then (depth - 1) inStr strChar (i + 1) cs
         else if depth = 0 \<and> take 4 (c # cs) = ''then'' then Some i
         else find_then depth inStr strChar (i + 1) cs)
      else find_then depth inStr strChar (i + 1) cs)"

definition next_boundary :: "string \<Rightarrow> nat \<Rightarrow> nat" where
  "next_boundary body thenIndex =
     (let nextWhenIndex = indexOf body ''when'' (thenIndex + 4);
          elseIndex = indexOf body ''else'' (thenIndex + 4);
          caseEndIndex = indexOf body ''end'' (thenIndex + 4);
          b0 = length body;
          b1 = (case nextWhenIndex of Some i \<Rightarrow> if i < b0 then i else b0 | None \<Rightarrow> b0);
          b2 = (case elseIndex of Some i \<Rightarrow> if i < b1 then i else b1 | None \<Rightarrow> b1);
          b3 = (case caseEndIndex of Some i \<Rightarrow> if i < b2 then i else b2 | None \<Rightarrow> b2)
      in b3)"

lemma take_eq_length: "take n xs = ys \<Longrightarrow> length ys \<le> length xs"
  by auto


lemma indexOf_ge: "indexOf s sub from = Some i \<Longrightarrow> from \<le> i"
  by (auto simp: indexOf_def)

lemma find_then_range:
  "find_then depth inStr strChar i s = Some t \<Longrightarrow> i \<le> t \<and> t + 4 \<le> i + length s"
proof (induction depth inStr strChar i s rule: find_then.induct)
  case (1 depth inStr strChar i)
  then show ?case by simp
next
  case (2 depth inStr strChar i c cs)
  then show ?case
    by (auto split: if_splits dest: take_eq_length)
qed

lemma next_boundary_range:
  "thenIndex + 4 \<le> length body \<Longrightarrow>
   thenIndex + 4 \<le> next_boundary body thenIndex \<and> next_boundary body thenIndex \<le> length body"
  by (auto simp: next_boundary_def Let_def dest: indexOf_ge split: option.splits)

function case_loop ::
  "(string \<Rightarrow> jsval option) \<Rightarrow> string \<Rightarrow> string \<Rightarrow> nat \<Rightarrow> jsval list \<Rightarrow> jsval list
     \<Rightarrow> (jsval list \<times> jsval list \<times> jsval) option" where
  "case_loop conv caseBody body pos conditions results =
     (if pos < length body then
        (case indexOf body ''when'' pos of
           None \<Rightarrow> Some (conditions, results, None)
         | Some whenIndex \<Rightarrow>
             (case find_then 0 False None (whenIndex + 4) (drop (whenIndex + 4) body) of
                None \<Rightarrow> Some (conditions, results, None)
              | Some thenIndex \<Rightarrow>
                  (case conv (trim (substring caseBody (whenIndex + 4) thenIndex)) of
                     None \<Rightarrow> None
                   | Some condition \<Rightarrow>
                       (case conv (trim (substring caseBody (thenIndex + 4)
                                           (next_boundary body thenIndex))) of
                          None \<Rightarrow> None
                        | Some result \<Rightarrow>
                            if indexOf body ''else'' (thenIndex + 4)
                                 = Some (next_boundary body thenIndex)
                            then (case conv (trim (drop (next_boundary body thenIndex + 4) caseBody)) of
                                    None \<Rightarrow> None
                                  | Some elseResult \<Rightarrow>
                                      Some (conditions @ [condition], results @ [result], elseResult))
                            else case_loop conv caseBody body (next_boundary body thenIndex)
                                   (conditions @ [condition]) (results @ [result])))))
      else Some (conditions, results, None))"
  by pat_completeness auto
termination
proof (relation "measure (\<lambda>(conv, caseBody, body, pos, conditions, results). length body - pos)",
       goal_cases)
  case 1
  show ?case by simp
next
  case (2 conv caseBody body pos conditions results whenIndex thenIndex condition result)
  from 2(2) have w: "pos \<le> whenIndex" by (rule indexOf_ge)
  from find_then_range[OF 2(3)] have t: "whenIndex + 4 \<le> thenIndex" "thenIndex + 4 \<le> length body"
    by auto
  from next_boundary_range[OF t(2)] w t 2(1) show ?case by auto
qed

declare case_loop.simps [simp del]

definition convertCase :: "(string \<Rightarrow> jsval option) \<Rightarrow> string \<Rightarrow> jsval option" where
  "convertCase conv expr =
     (if \<not> case_word False expr then Some None
      else
        let normalized = normalize_ws expr;
            caseMatch = indexOf (toLowerCase normalized) ''case'' 0;
            caseIndex = (case caseMatch of Some i \<Rightarrow> i | None \<Rightarrow> 0);
            bodyStart = (case caseMatch of Some i \<Rightarrow> i + 4 | None \<Rightarrow> 3)
        in case lastIndexOf (toLowerCase normalized) ''end'' of
             None \<Rightarrow> Some None
           | Some endIndex \<Rightarrow>
               (let caseBody = trim (substring normalized bodyStart endIndex) in
                case case_loop conv caseBody (toLowerCase caseBody) 0 [] [] of
                  None \<Rightarrow> None
                | Some (conditions, results, elseResult) \<Rightarrow>
                    if length conditions = 0 then Some None
                    else
                      (let ifArgs = concat (map (\<lambda>(c, r). [c, r]) (zip conditions results))
                                      @ (if truthy elseResult then [elseResult] else []);
                           result = ''if('' @ join '','' (map join_item ifArgs) @ '')''
                       in Some (Some (substring normalized 0 caseIndex @ result
                                        @ drop (endIndex + 3) normalized)))))"

subsection \<open>convertConcat, convertSplitPart\<close>

definition call_at :: "string \<Rightarrow> string \<Rightarrow> nat option" where
  "call_at name s =
     (if toLowerCase (take (length name) s) = name then
        (case dropWhile is_space (drop (length name) s) of
           [] \<Rightarrow> None
         | c # cs \<Rightarrow>
             if c = CHR ''('' then
               Some (length name + length (takeWhile is_space (drop (length name) s)) + 1)
             else None)
      else None)"

fun find_call :: "string \<Rightarrow> string \<Rightarrow> (nat \<times> nat) option" where
  "find_call name [] = None"
| "find_call name (c # cs) =
     (case call_at name (c # cs) of
        Some len \<Rightarrow> Some (0, len)
      | None \<Rightarrow> map_option (\<lambda>(i, len). (Suc i, len)) (find_call name cs))"

definition is_quoted :: "string \<Rightarrow> bool" where
  "is_quoted arg =
     ((starts_with arg [CHR 0x27] \<and> ends_with arg [CHR 0x27]) \<or>
      (starts_with arg [CHR 0x22] \<and> ends_with arg [CHR 0x22]))"

fun map_conv :: "(string \<Rightarrow> jsval option) \<Rightarrow> string list \<Rightarrow> jsval list option" where
  "map_conv f [] = Some []"
| "map_conv f (x # xs) =
     (case f x of
        None \<Rightarrow> None
      | Some v \<Rightarrow> (case map_conv f xs of None \<Rightarrow> None | Some vs \<Rightarrow> Some (v # vs)))"

definition convertConcat :: "(string \<Rightarrow> jsval option) \<Rightarrow> bool \<Rightarrow> string \<Rightarrow> jsval option" where
  "convertConcat conv friendly expr =
     (case find_call ''concat'' expr of
        None \<Rightarrow> Some None
      | Some (index, matchLength) \<Rightarrow>
          (let startPos = index + matchLength in
           case findMatchingClosingParen expr startPos of
             None \<Rightarrow> Some None
           | Some endPos \<Rightarrow>
               (case map_conv
                       (\<lambda>arg. if is_quoted (trim arg) then Some (Some (trim arg))
                              else conv (convertColumnReferences friendly (trim arg)))
                       (parseFunctionArguments (substring expr startPos endPos)) of
                  None \<Rightarrow> None
                | Some convertedArgs \<Rightarrow>
                    Some (Some (substring expr 0 index
                                  @ join '' & '' (map join_item convertedArgs)
                                  @ drop (endPos + 1) expr)))))"

definition convertSplitPart :: "(string \<Rightarrow> jsval option) \<Rightarrow> bool \<Rightarrow> string \<Rightarrow> jsval option" where
  "convertSplitPart conv friendly expr =
     (case find_call ''split_part'' expr of
        None \<Rightarrow> Some None
      | Some (index, matchLength) \<Rightarrow>
          (let startPos = index + matchLength in
           case findMatchingClosingParen expr startPos of
             None \<Rightarrow> Some None
           | Some endPos \<Rightarrow>
               (let arguments = parseFunctionArguments (substring expr startPos endPos) in
                if length arguments < 3 then Some None
                else
                  (case conv (convertColumnReferences friendly (trim (hd arguments))) of
                     None \<Rightarrow> None
                   | Some firstArg \<Rightarrow>
                       Some (Some (substring expr 0 index
                                     @ ''splitpart('' @ template firstArg @ '',''
                                     @ join '','' (map trim (tl arguments)) @ '')''
                                     @ drop (endPos + 1) expr))))))"

subsection \<open>convertExpressionToSigma\<close>

definition changed_to :: "jsval \<Rightarrow> string \<Rightarrow> string option" where
  "changed_to r converted =
     (case r of Some s \<Rightarrow> (if s \<noteq> [] \<and> s \<noteq> converted then Some s else None) | None \<Rightarrow> None)"

fun rewrite_loop :: "(string \<Rightarrow> jsval option) \<Rightarrow> bool \<Rightarrow> nat \<Rightarrow> string \<Rightarrow> string option" where
  "rewrite_loop conv friendly 0 converted = Some converted"
| "rewrite_loop conv friendly (Suc k) converted =
     (case convertCase conv converted of
        None \<Rightarrow> None
      | Some caseResult \<Rightarrow>
          (case changed_to caseResult converted of
             Some s \<Rightarrow> rewrite_loop conv friendly k s
           | None \<Rightarrow>
               (case convertConcat conv friendly converted of
                  None \<Rightarrow> None
                | Some concatResult \<Rightarrow>
                    (case changed_to concatResult converted of
                       Some s \<Rightarrow> rewrite_loop conv friendly k s
                     | None \<Rightarrow>
                         (case convertSplitPart conv friendly converted of
                            None \<Rightarrow> None
                          | Some splitPartResult \<Rightarrow>
                              (case changed_to splitPartResult converted of
                                 Some s \<Rightarrow> rewrite_loop conv friendly k s
                               | None \<Rightarrow> Some converted))))))"

definition maxIterations :: nat where
  "maxIterations = 10"

fun convertExpressionToSigma :: "nat \<Rightarrow> bool \<Rightarrow> string \<Rightarrow> jsval option" where
  "convertExpressionToSigma 0 friendly expr = None"
| "convertExpressionToSigma (Suc fuel) friendly expr =
     (if expr = [] then Some None
      else (case rewrite_loop (convertExpressionToSigma fuel friendly) friendly maxIterations
                   (normalize_ws (trim expr)) of
              None \<Rightarrow> None
            | Some converted \<Rightarrow> Some (Some (convertColumnReferences friendly converted))))"

definition sq :: string where "sq = [CHR 0x27]"

text \<open>
  The argument texts that the closing scan accepts from a given depth: every opening
  parenthesis has its closing one, quoted or not, and the depth is 0 at the end.
\<close>

fun balanced :: "nat \<Rightarrow> string \<Rightarrow> bool" where
  "balanced depth [] = (depth = 0)"
| "balanced depth (c # cs) =
     (if c = CHR ''('' then balanced (depth + 1) cs
      else if c = CHR '')'' then 0 < depth \<and> balanced (depth - 1) cs
      else balanced depth cs)"




lemma toLowerCase_length [simp]: "length (toLowerCase s) = length s"
  by (simp add: toLowerCase_def)

lemma toLowerCase_take_append:
  "toLowerCase kw = name \<Longrightarrow> toLowerCase (take (length name) (kw @ rest)) = name"
proof -
  assume h: "toLowerCase kw = name"
  then have "length name = length kw" by (metis toLowerCase_length)
  with h show ?thesis by simp
qed

lemma call_at_start:
  assumes "toLowerCase kw = name" "list_all is_space ws"
  shows "call_at name (kw @ ws @ CHR ''('' # rest) = Some (length kw + length ws + 1)"
proof -
  have len: "length name = length kw" using assms(1) by (metis toLowerCase_length)
  have sp: "\<not> is_space (CHR ''('')" by (simp add: is_space_def)
  have dw: "dropWhile is_space (ws @ CHR ''('' # rest) = CHR ''('' # rest"
    using assms(2) sp by (simp add: dropWhile_append list_all_iff)
  have tw: "takeWhile is_space (ws @ CHR ''('' # rest) = ws"
    using assms(2) sp by (simp add: takeWhile_append list_all_iff takeWhile_eq_all_conv)
  show ?thesis
    using toLowerCase_take_append[OF assms(1), of "ws @ CHR ''('' # rest"] dw tw len
    by (simp add: call_at_def)
qed

lemma find_call_start:
  assumes "toLowerCase kw = name" "name \<noteq> []" "list_all is_space ws"
  shows "find_call name (kw @ ws @ CHR ''('' # rest) = Some (0, length kw + length ws + 1)"
proof -
  from assms(1,2) obtain k ks where kw: "kw = k # ks"
    by (cases kw) (auto simp: toLowerCase_def)
  from call_at_start[OF assms(1,3), of rest] show ?thesis
    by (simp add: kw)
qed


lemma scan_close_found:
  "scan_close depth i s = Some e \<Longrightarrow>
   \<exists>inner post. s = inner @ CHR '')'' # post \<and> balanced depth inner \<and> e = i + length inner"
proof (induction depth i s rule: scan_close.induct)
  case (1 depth i)
  then show ?case by simp
next
  case (2 depth i c cs)
  show ?case
  proof (cases "c = CHR '')'' \<and> depth = 0")
    case True
    with 2(4) have "e = i" by simp
    with True show ?thesis by (intro exI[of _ "[]"] exI[of _ cs]) simp
  next
    case False
    then obtain d' where d': "scan_close d' (i + 1) cs = Some e"
      and b: "\<And>inner. balanced d' inner \<Longrightarrow> balanced depth (c # inner)"
      and ih: "scan_close d' (i + 1) cs = Some e \<Longrightarrow>
                 \<exists>inner post. cs = inner @ CHR '')'' # post \<and> balanced d' inner \<and>
                   e = i + 1 + length inner"
      using 2 by (cases "c = CHR ''(''"; cases "c = CHR '')''") auto
    from ih[OF d'] obtain inner post where
      "cs = inner @ CHR '')'' # post" "balanced d' inner" "e = i + 1 + length inner" by blast
    with b[of inner] show ?thesis
      by (intro exI[of _ "c # inner"] exI[of _ post]) simp
  qed
qed




text \<open>
  Claim C5, evaluated at \<open>SPLIT_PART(phone, ')', 2)\<close>. The scan started after the opening
  parenthesis (position 11) returns 19, the parenthesis inside the quoted delimiter, and not
  24, the parenthesis that closes the call: \<open>findMatchingClosingParen\<close> keeps no quote state,
  whereas \<open>parseFunctionArguments\<close> does. The call is then seen with two arguments, is not
  converted, and the translator answers with \<open>[SPLIT_PART]([phone], ')', 2)\<close>.
\<close>

theorem findMatchingClosingParen_quoted_paren:
  "findMatchingClosingParen (''SPLIT_PART(phone, '' @ sq @ '')'' @ sq @ '', 2)'') 11 = Some 19 \<and>
   (''SPLIT_PART(phone, '' @ sq @ '')'' @ sq @ '', 2)'') ! 19 = CHR '')'' \<and>
   (''SPLIT_PART(phone, '' @ sq @ '')'' @ sq @ '', 2)'') ! 24 = CHR '')'' \<and>
   length (''SPLIT_PART(phone, '' @ sq @ '')'' @ sq @ '', 2)'') = 25 \<and>
   convertExpressionToSigma 2 False (''SPLIT_PART(phone, '' @ sq @ '')'' @ sq @ '', 2)'')
     = Some (Some (''[SPLIT_PART]([phone], '' @ sq @ '')'' @ sq @ '', 2)''))"
  by code_simp

section \<open>The filter translator\<close>

subsection \<open>Regular-expression pieces\<close>

definition eat_lit :: "string \<Rightarrow> string \<Rightarrow> string option" where
  "eat_lit lit s = (if starts_with s lit then Some (drop (length lit) s) else None)"

definition eat_liti :: "string \<Rightarrow> string \<Rightarrow> string option" where
  "eat_liti lit s =
     (if toLowerCase (take (length lit) s) = lit then Some (drop (length lit) s) else None)"

definition eat_spaces1 :: "string \<Rightarrow> string option" where
  "eat_spaces1 s =
     (case s of [] \<Rightarrow> None | c # cs \<Rightarrow> if is_space c then Some (dropWhile is_space cs) else None)"

definition eat_run1 :: "(char \<Rightarrow> bool) \<Rightarrow> string \<Rightarrow> (string \<times> string) option" where
  "eat_run1 P s =
     (case s of [] \<Rightarrow> None
      | c # cs \<Rightarrow> if P c then Some (c # takeWhile P cs, dropWhile P cs) else None)"

definition eat_quote :: "string \<Rightarrow> (char \<times> string) option" where
  "eat_quote s = (case s of [] \<Rightarrow> None | c # cs \<Rightarrow> if is_quote c then Some (c, cs) else None)"

function replace_all :: "(string \<Rightarrow> (string \<times> string) option) \<Rightarrow> string \<Rightarrow> string" where
  "replace_all m [] = []"
| "replace_all m (c # cs) =
     (case m (c # cs) of
        Some (out, rest) \<Rightarrow>
          if length rest \<le> length cs then out @ replace_all m rest else c # replace_all m cs
      | None \<Rightarrow> c # replace_all m cs)"
  by pat_completeness auto
termination
  by (relation "measure (\<lambda>(m, s). length s)") auto

function match_all :: "(string \<Rightarrow> ('a \<times> string) option) \<Rightarrow> string \<Rightarrow> 'a list" where
  "match_all m [] = []"
| "match_all m (c # cs) =
     (case m (c # cs) of
        Some (cap, rest) \<Rightarrow>
          if length rest \<le> length cs then cap # match_all m rest else match_all m cs
      | None \<Rightarrow> match_all m cs)"
  by pat_completeness auto
termination
  by (relation "measure (\<lambda>(m, s). length s)") auto

subsection \<open>dimension_parser\<close>

text \<open>\<open>String.prototype.split('__')\<close>.\<close>

fun split_dunder :: "string \<Rightarrow> string \<Rightarrow> string list" where
  "split_dunder acc [] = [acc]"
| "split_dunder acc [c] = [acc @ [c]]"
| "split_dunder acc (c # d # cs) =
     (if c = CHR ''_'' \<and> d = CHR ''_'' then acc # split_dunder [] cs
      else split_dunder (acc @ [c]) (d # cs))"

definition parseDimensionReference :: "bool \<Rightarrow> string \<Rightarrow> string option \<times> string" where
  "parseDimensionReference friendly dimRef =
     (let parts = split_dunder [] dimRef in
      if length parts \<ge> 2
      then (Some (parts ! 0),
            if friendly then convertToUserFriendlyName (parts ! 1) else parts ! 1)
      else (None, if friendly then convertToUserFriendlyName dimRef else dimRef))"

definition dimension_ref :: "string \<Rightarrow> (string \<times> string) option" where
  "dimension_ref s =
     do { s1 \<leftarrow> eat_lit ''Dimension('' s;
          (q1, s2) \<leftarrow> eat_quote s1;
          (dimRef, s3) \<leftarrow> eat_run1 (\<lambda>c. \<not> is_quote c) s2;
          (q2, s4) \<leftarrow> eat_quote s3;
          s5 \<leftarrow> eat_lit '')'' s4;
          Some (dimRef, s5) }"

definition findDimensionReferences :: "string \<Rightarrow> string list" where
  "findDimensionReferences str = match_all dimension_ref str"

subsection \<open>convertFilterToSigma\<close>

definition jinja_brace :: "string \<Rightarrow> (string \<times> string) option" where
  "jinja_brace s =
     (if starts_with s ''{{'' \<or> starts_with s ''}}'' then Some ([], drop 2 s) else None)"

definition bracketed :: "string \<Rightarrow> (string \<times> string) option" where
  "bracketed s =
     do { s1 \<leftarrow> eat_lit ''['' s;
          (dimension, s2) \<leftarrow> eat_run1 (\<lambda>c. c \<noteq> CHR '']'') s1;
          s3 \<leftarrow> eat_lit '']'' s2;
          Some (dimension, s3) }"

definition paren_values :: "string \<Rightarrow> (string \<times> string) option" where
  "paren_values s =
     do { s1 \<leftarrow> eat_lit ''('' s;
          (vals, s2) \<leftarrow> eat_run1 (\<lambda>c. c \<noteq> CHR '')'') s1;
          s3 \<leftarrow> eat_lit '')'' s2;
          Some (vals, s3) }"

definition quoted_pattern :: "string \<Rightarrow> (char \<times> string \<times> string) option" where
  "quoted_pattern s =
     do { (quote, s1) \<leftarrow> eat_quote s;
          s2 \<leftarrow> eat_lit [quote] (dropWhile (\<lambda>c. \<not> is_quote c) s1);
          Some (quote, takeWhile (\<lambda>c. \<not> is_quote c) s1, s2) }"

definition in_condition :: "string \<Rightarrow> (string \<times> string) option" where
  "in_condition s =
     do { (dimension, s1) \<leftarrow> bracketed s;
          s2 \<leftarrow> eat_spaces1 s1; s3 \<leftarrow> eat_liti ''in'' s2; s4 \<leftarrow> eat_spaces1 s3;
          (vals, s5) \<leftarrow> paren_values s4;
          Some (''arraycontains(array('' @ vals @ ''),['' @ dimension @ ''])'', s5) }"

definition not_in_condition :: "string \<Rightarrow> (string \<times> string) option" where
  "not_in_condition s =
     do { (dimension, s1) \<leftarrow> bracketed s;
          s2 \<leftarrow> eat_spaces1 s1; s3 \<leftarrow> eat_liti ''not'' s2; s4 \<leftarrow> eat_spaces1 s3;
          s5 \<leftarrow> eat_liti ''in'' s4; s6 \<leftarrow> eat_spaces1 s5;
          (vals, s7) \<leftarrow> paren_values s6;
          Some (''not(arraycontains(array('' @ vals @ ''),['' @ dimension @ '']))'', s7) }"

definition is_not_null_condition :: "string \<Rightarrow> (string \<times> string) option" where
  "is_not_null_condition s =
     do { (dimension, s1) \<leftarrow> bracketed s;
          s2 \<leftarrow> eat_spaces1 s1; s3 \<leftarrow> eat_liti ''is'' s2; s4 \<leftarrow> eat_spaces1 s3;
          s5 \<leftarrow> eat_liti ''not'' s4; s6 \<leftarrow> eat_spaces1 s5; s7 \<leftarrow> eat_liti ''null'' s6;
          Some (''isnotnull(['' @ dimension @ ''])'', s7) }"

definition is_null_condition :: "string \<Rightarrow> (string \<times> string) option" where
  "is_null_condition s =
     do { (dimension, s1) \<leftarrow> bracketed s;
          s2 \<leftarrow> eat_spaces1 s1; s3 \<leftarrow> eat_liti ''is'' s2; s4 \<leftarrow> eat_spaces1 s3;
          s5 \<leftarrow> eat_liti ''null'' s4;
          Some (''isnull(['' @ dimension @ ''])'', s5) }"

definition not_ilike_condition :: "string \<Rightarrow> (string \<times> string) option" where
  "not_ilike_condition s =
     do { (dimension, s1) \<leftarrow> bracketed s;
          s2 \<leftarrow> eat_spaces1 s1; s3 \<leftarrow> eat_liti ''not'' s2; s4 \<leftarrow> eat_spaces1 s3;
          s5 \<leftarrow> eat_liti ''ilike'' s4; s6 \<leftarrow> eat_spaces1 s5;
          (quote, pattern, s7) \<leftarrow> quoted_pattern s6;
          Some (''not(ilike(['' @ dimension @ ''],'' @ [quote] @ pattern @ [quote] @ ''))'', s7) }"

definition ilike_condition :: "string \<Rightarrow> (string \<times> string) option" where
  "ilike_condition s =
     do { (dimension, s1) \<leftarrow> bracketed s;
          s2 \<leftarrow> eat_spaces1 s1; s3 \<leftarrow> eat_liti ''ilike'' s2; s4 \<leftarrow> eat_spaces1 s3;
          (quote, pattern, s5) \<leftarrow> quoted_pattern s4;
          Some (''ilike(['' @ dimension @ ''],'' @ [quote] @ pattern @ [quote] @ '')'', s5) }"

definition convertFilterToSigma :: "bool \<Rightarrow> string \<Rightarrow> string \<Rightarrow> string" where
  "convertFilterToSigma friendly filterStr modelName =
     (let c1 = normalize_ws (replace_all jinja_brace filterStr);
          c2 = replace_all
                 (\<lambda>s. map_option
                         (\<lambda>(dimRef, rest).
                            (''['' @ snd (parseDimensionReference friendly dimRef) @ '']'', rest))
                         (dimension_ref s)) c1;
          c3 = replace_all in_condition c2;
          c4 = replace_all not_in_condition c3;
          c5 = replace_all is_not_null_condition c4;
          c6 = replace_all is_null_condition c5;
          c7 = replace_all not_ilike_condition c6;
          c8 = replace_all ilike_condition c7
      in c8)"

definition dq :: string where "dq = [CHR 0x22]"


section \<open>The metric resolver\<close>

datatype jsstr = Undefined | Null | Str string

definition str_template :: "jsstr \<Rightarrow> string" where
  "str_template v = (case v of Undefined \<Rightarrow> ''undefined'' | Null \<Rightarrow> ''null'' | Str s \<Rightarrow> s)"

definition str_truthy :: "jsstr \<Rightarrow> bool" where
  "str_truthy v = (case v of Str s \<Rightarrow> s \<noteq> [] | _ \<Rightarrow> False)"

record metric_ref_obj =
  r_name :: string
  r_filter :: "string option"
  r_alias :: "string option"

datatype metric_ref = BareName string | Ref metric_ref_obj

record metric =
  mt_name :: string
  mt_description :: "string option"
  mt_label :: "string option"
  mt_type :: string
  mt_filter :: "string option"
  tp_measure :: "string option"
  tp_expr :: "string option"
  tp_metrics :: "metric_ref list"
  tp_numerator :: "metric_ref option"
  tp_denominator :: "metric_ref option"

record formula_object =
  fo_formula :: string
  fo_aggFunc :: jsstr
  fo_measureExpr :: jsstr
  fo_existingFilter :: jsstr

record sigma_metric =
  sg_id :: string
  sg_name :: string
  sg_description :: "string option"
  sg_formula :: jsval

record resolver_state =
  convertedMetrics :: "string \<rightharpoonup> formula_object"
  console :: "string list"

definition ref_name :: "metric_ref \<Rightarrow> string" where
  "ref_name r = (case r of BareName s \<Rightarrow> s | Ref obj \<Rightarrow> r_name obj)"

definition opt_truthy :: "string option \<Rightarrow> bool" where
  "opt_truthy v = (case v of Some s \<Rightarrow> s \<noteq> [] | None \<Rightarrow> False)"

text \<open>\<open>typeof typeParamMetric === 'object' && typeParamMetric.filter\<close>: the filter, when truthy.\<close>

definition ref_filter :: "metric_ref \<Rightarrow> string option" where
  "ref_filter r =
     (case r of BareName s \<Rightarrow> None
      | Ref obj \<Rightarrow> (if opt_truthy (r_filter obj) then r_filter obj else None))"

subsection \<open>filter_utils\<close>

definition combineFilters :: "string \<Rightarrow> string \<Rightarrow> string" where
  "combineFilters existingFilter newFilter =
     (if existingFilter = [] then newFilter
      else if newFilter = [] then existingFilter
      else ''('' @ existingFilter @ '') and '' @ newFilter)"

definition rebuildFilteredFormula :: "string \<Rightarrow> jsstr \<Rightarrow> string \<Rightarrow> string" where
  "rebuildFilteredFormula aggFunc measureExpr combinedFilter =
     (if aggFunc = ''countif'' then aggFunc @ ''('' @ combinedFilter @ '')''
      else aggFunc @ ''(['' @ str_template measureExpr @ ''],'' @ combinedFilter @ '')'')"

subsection \<open>build_formula_object\<close>

definition buildMeasureFormula :: "bool \<Rightarrow> measure \<Rightarrow> formula_object" where
  "buildMeasureFormula friendly m =
     (let userFriendlyExpr =
            (case m_expr m of
               None \<Rightarrow> Undefined
             | Some e \<Rightarrow> Str (if friendly then convertToUserFriendlyName e else e));
          aggFunc = (if m_agg m = ''count_distinct'' then ''countdistinct'' else m_agg m)
      in \<lparr> fo_formula = aggFunc @ ''(['' @ str_template userFriendlyExpr @ ''])'',
           fo_aggFunc = Str aggFunc,
           fo_measureExpr = userFriendlyExpr,
           fo_existingFilter = Null \<rparr>)"

definition buildMeasureFormulaWithFilter ::
  "bool \<Rightarrow> measure \<Rightarrow> string \<Rightarrow> string \<Rightarrow> formula_object" where
  "buildMeasureFormulaWithFilter friendly m filterStr modelName =
     (let measureExpr = (case m_expr m of None \<Rightarrow> Undefined | Some e \<Rightarrow> Str e);
          measureAgg = m_agg m;
          convertedFilter = convertFilterToSigma friendly filterStr modelName;
          aggFunc =
            (if measureAgg = ''sum'' then Str ''sumif''
             else if measureAgg = ''avg'' then Str ''avgif''
             else if measureAgg = ''min'' then Str ''minif''
             else if measureAgg = ''max'' then Str ''maxif''
             else if measureAgg = ''count'' then Str ''countif''
             else if measureAgg = ''count_distinct'' then Str ''countdistinctif''
             else Null)
      in \<lparr> fo_formula =
             (if measureAgg = ''count''
              then str_template aggFunc @ ''('' @ convertedFilter @ '')''
              else str_template aggFunc @ ''(['' @ str_template measureExpr @ ''],''
                     @ convertedFilter @ '')''),
           fo_aggFunc = aggFunc,
           fo_measureExpr = (if measureAgg = ''count'' then Null else measureExpr),
           fo_existingFilter = Str convertedFilter \<rparr>)"

subsection \<open>buildSigmaMeasureFormula\<close>

type_synonym metric_converter =
  "metric \<Rightarrow> semantic_model \<Rightarrow> metric list \<Rightarrow> resolver_state
     \<Rightarrow> (sigma_metric \<times> resolver_state) option"

definition store :: "string \<Rightarrow> formula_object \<Rightarrow> resolver_state \<Rightarrow> resolver_state" where
  "store k obj st = st \<lparr> convertedMetrics := (convertedMetrics st)(k \<mapsto> obj) \<rparr>"

definition warn :: "string \<Rightarrow> resolver_state \<Rightarrow> resolver_state" where
  "warn msg st = st \<lparr> console := console st @ [msg] \<rparr>"

text \<open>
  The part of \<open>buildSigmaMeasureFormula\<close> after the referenced metric's formula
  object is at hand: a filter on the reference is combined with the cached one, or
  dropped.
\<close>

definition apply_reference_filter ::
  "bool \<Rightarrow> metric_ref \<Rightarrow> semantic_model \<Rightarrow> string \<Rightarrow> formula_object \<Rightarrow> resolver_state
     \<Rightarrow> jsval \<times> resolver_state" where
  "apply_reference_filter friendly typeParamMetric semanticModel metricName obj st =
     (case ref_filter typeParamMetric of
        Some newFilterStr \<Rightarrow>
          (let convertedNewFilter = convertFilterToSigma friendly newFilterStr (sm_name semanticModel) in
           case (fo_aggFunc obj, fo_existingFilter obj) of
             (Str aggFunc, Str existingFilter) \<Rightarrow>
               if aggFunc \<noteq> [] then
                 (let combinedFilter = combineFilters existingFilter convertedNewFilter;
                      combinedFormula =
                        rebuildFilteredFormula aggFunc (fo_measureExpr obj) combinedFilter
                  in (Some combinedFormula,
                      store metricName
                        \<lparr> fo_formula = combinedFormula, fo_aggFunc = fo_aggFunc obj,
                          fo_measureExpr = fo_measureExpr obj,
                          fo_existingFilter = Str combinedFilter \<rparr> st))
               else (Some (fo_formula obj), st)
           | _ \<Rightarrow> (Some (fo_formula obj), st))
      | None \<Rightarrow> (Some (fo_formula obj), st))"

definition buildSigmaMeasureFormula ::
  "metric_converter \<Rightarrow> bool \<Rightarrow> metric_ref \<Rightarrow> semantic_model \<Rightarrow> metric list \<Rightarrow> resolver_state
     \<Rightarrow> (jsval \<times> resolver_state) option" where
  "buildSigmaMeasureFormula convertMetric friendly typeParamMetric semanticModel allMetrics st =
     (let metricName = ref_name typeParamMetric in
      case find (\<lambda>m. m_name m = metricName) (sm_measures semanticModel) of
        Some m \<Rightarrow>
          (let sigmaFormulaObject =
                 (case ref_filter typeParamMetric of
                    Some filterStr \<Rightarrow>
                      buildMeasureFormulaWithFilter friendly m filterStr (sm_name semanticModel)
                  | None \<Rightarrow> buildMeasureFormula friendly m)
           in Some (Some (fo_formula sigmaFormulaObject), store metricName sigmaFormulaObject st))
      | None \<Rightarrow>
          (case find (\<lambda>m. mt_name m = metricName) allMetrics of
             None \<Rightarrow> Some (None, st)
           | Some referencedMetric \<Rightarrow>
               (case convertedMetrics st metricName of
                  Some obj \<Rightarrow>
                    Some (apply_reference_filter friendly typeParamMetric semanticModel
                            metricName obj st)
                | None \<Rightarrow>
                    (case convertMetric referencedMetric semanticModel allMetrics st of
                       None \<Rightarrow> None
                     | Some (convertedMetric, st1) \<Rightarrow>
                         if truthy (sg_formula convertedMetric) then
                           (case convertedMetrics st1 metricName of
                              Some obj \<Rightarrow>
                                Some (apply_reference_filter friendly typeParamMetric
                                        semanticModel metricName obj st1)
                            | None \<Rightarrow> Some (None, st1))
                         else Some (None, st1)))))"

subsection \<open>metric_converter\<close>

definition parseExprParts :: "string \<Rightarrow> string list" where
  "parseExprParts expr = fold set_add (map snd (ident_matches False 0 expr)) []"

definition findMetricInTypeParams :: "metric_ref list \<Rightarrow> string \<Rightarrow> metric_ref option" where
  "findMetricInTypeParams typeParamMetrics exprPart =
     (case find (\<lambda>r. case r of Ref obj \<Rightarrow> r_alias obj = Some exprPart | BareName s \<Rightarrow> False)
             typeParamMetrics of
        Some r \<Rightarrow> Some r
      | None \<Rightarrow>
          find (\<lambda>r. case r of Ref obj \<Rightarrow> r_name obj = exprPart | BareName s \<Rightarrow> False)
            typeParamMetrics)"

text \<open>
  The replacement string of \<open>String.prototype.replace\<close>: \<open>$$\<close>, \<open>$&\<close>, the text before
  the match and the text after it are substituted (the pattern has no capture group).
\<close>

fun expand_replacement :: "string \<Rightarrow> string \<Rightarrow> string \<Rightarrow> string \<Rightarrow> string" where
  "expand_replacement matched pre post [] = []"
| "expand_replacement matched pre post [c] = [c]"
| "expand_replacement matched pre post (c # d # r) =
     (if c = CHR ''$'' \<and> d = CHR ''$'' then CHR ''$'' # expand_replacement matched pre post r
      else if c = CHR ''$'' \<and> d = CHR ''&'' then matched @ expand_replacement matched pre post r
      else if c = CHR ''$'' \<and> d = CHR 0x60 then pre @ expand_replacement matched pre post r
      else if c = CHR ''$'' \<and> d = CHR 0x27 then post @ expand_replacement matched pre post r
      else c # expand_replacement matched pre post (d # r))"

text \<open>\<open>convertedExpr.replace(new RegExp('\\b' + part + '\\b', 'g'), formula)\<close>.\<close>

function replace_word :: "string \<Rightarrow> string \<Rightarrow> bool \<Rightarrow> string \<Rightarrow> string \<Rightarrow> string" where
  "replace_word part formula prev_word pre [] = []"
| "replace_word part formula prev_word pre (c # cs) =
     (if \<not> prev_word \<and> part \<noteq> [] \<and> starts_with (c # cs) part \<and>
         (case drop (length part) (c # cs) of [] \<Rightarrow> True | d # ds \<Rightarrow> \<not> word_char d)
      then expand_replacement part pre (drop (length part) (c # cs)) formula
             @ replace_word part formula True (pre @ part) (drop (length part) (c # cs))
      else c # replace_word part formula (word_char c) (pre @ [c]) cs)"
  by pat_completeness auto
termination
  by (relation "measure (\<lambda>(part, formula, pw, pre, s). length s)") (auto simp: neq_Nil_conv)

definition part_warning :: "string \<Rightarrow> string \<Rightarrow> string" where
  "part_warning part expr =
     ''Warning: Part '' @ [CHR 0x27] @ part @ [CHR 0x27] @ '' in expr '' @ [CHR 0x27] @ expr
       @ [CHR 0x27] @ '' not found in type_params.metrics''"

definition not_found_warning :: "string \<Rightarrow> string" where
  "not_found_warning name =
     ''Warning: Measure/metric '' @ [CHR 0x27] @ name @ [CHR 0x27]
       @ '' not found in semantic model measures or metrics''"

text \<open>The first loop of \<open>convertExpression\<close>; the result \<open>None\<close> inside is the \<open>return null\<close>.\<close>

fun resolve_parts ::
  "metric_converter \<Rightarrow> bool \<Rightarrow> string \<Rightarrow> metric_ref list \<Rightarrow> semantic_model \<Rightarrow> metric list
     \<Rightarrow> string list \<Rightarrow> (string \<times> string) list \<Rightarrow> resolver_state
     \<Rightarrow> ((string \<times> string) list option \<times> resolver_state) option" where
  "resolve_parts convertMetric friendly expr typeParamMetrics semanticModel allMetrics [] formulas st =
     Some (Some formulas, st)"
| "resolve_parts convertMetric friendly expr typeParamMetrics semanticModel allMetrics (part # ps)
     formulas st =
     (case findMetricInTypeParams typeParamMetrics part of
        None \<Rightarrow> Some (None, warn (part_warning part expr) st)
      | Some typeParamMetric \<Rightarrow>
          (case buildSigmaMeasureFormula convertMetric friendly typeParamMetric semanticModel
                  allMetrics st of
             None \<Rightarrow> None
           | Some (formula, st1) \<Rightarrow>
               (case formula of
                  None \<Rightarrow> Some (None, warn (not_found_warning (ref_name typeParamMetric)) st1)
                | Some f \<Rightarrow>
                    if f = [] then Some (None, warn (not_found_warning (ref_name typeParamMetric)) st1)
                    else resolve_parts convertMetric friendly expr typeParamMetrics semanticModel
                           allMetrics ps (formulas @ [(part, f)]) st1)))"

definition convertExpression ::
  "metric_converter \<Rightarrow> bool \<Rightarrow> string \<Rightarrow> metric_ref list \<Rightarrow> semantic_model \<Rightarrow> metric list
     \<Rightarrow> resolver_state \<Rightarrow> (jsval \<times> resolver_state) option" where
  "convertExpression convertMetric friendly expr typeParamMetrics semanticModel allMetrics st =
     (if expr = [] then Some (None, st)
      else if length (parseExprParts expr) = 0 then Some (None, st)
      else
        (case resolve_parts convertMetric friendly expr typeParamMetrics semanticModel allMetrics
                (parseExprParts expr) [] st of
           None \<Rightarrow> None
         | Some (None, st1) \<Rightarrow> Some (None, st1)
         | Some (Some formulas, st1) \<Rightarrow>
             Some (Some (foldl (\<lambda>convertedExpr (part, formula).
                                  replace_word part formula False [] convertedExpr)
                           expr formulas), st1)))"

definition first_truthy :: "string option \<Rightarrow> string option \<Rightarrow> string \<Rightarrow> string" where
  "first_truthy a b c =
     (if opt_truthy a then the a else if opt_truthy b then the b else c)"

definition ratio_warning :: "string \<Rightarrow> string \<Rightarrow> string \<Rightarrow> string" where
  "ratio_warning name numeratorName denominatorName =
     ''Warning: Could not build formula for ratio metric '' @ [CHR 0x27] @ name @ [CHR 0x27]
       @ ''. Numerator: '' @ numeratorName @ '', Denominator: '' @ denominatorName"

definition ref_truthy :: "metric_ref option \<Rightarrow> bool" where
  "ref_truthy r = (case r of None \<Rightarrow> False | Some (BareName s) \<Rightarrow> s \<noteq> [] | Some (Ref obj) \<Rightarrow> True)"

definition simple_step ::
  "metric_converter \<Rightarrow> bool \<Rightarrow> metric \<Rightarrow> semantic_model \<Rightarrow> metric list \<Rightarrow> jsval \<times> resolver_state
     \<Rightarrow> (jsval \<times> resolver_state) option" where
  "simple_step convertMetric friendly m semanticModel allMetrics fs =
     (if mt_type m = ''simple'' \<and> opt_truthy (tp_measure m) then
        (let measureName = the (tp_measure m) in
         case convertExpression convertMetric friendly measureName
                [Ref \<lparr> r_name = measureName,
                       r_filter = (if opt_truthy (mt_filter m) then mt_filter m else None),
                       r_alias = None \<rparr>]
                semanticModel allMetrics (snd fs) of
           None \<Rightarrow> None
         | Some (formula, st1) \<Rightarrow>
             Some (formula,
                   (case convertedMetrics st1 measureName of
                      Some obj \<Rightarrow>
                        if fo_aggFunc obj \<noteq> Undefined then store (mt_name m) obj st1 else st1
                    | None \<Rightarrow> st1)))
      else Some fs)"

definition derived_step ::
  "metric_converter \<Rightarrow> bool \<Rightarrow> metric \<Rightarrow> semantic_model \<Rightarrow> metric list \<Rightarrow> jsval \<times> resolver_state
     \<Rightarrow> (jsval \<times> resolver_state) option" where
  "derived_step convertMetric friendly m semanticModel allMetrics fs =
     (if mt_type m = ''derived'' \<and> opt_truthy (tp_expr m) \<and> length (tp_metrics m) > 0 then
        convertExpression convertMetric friendly (the (tp_expr m)) (tp_metrics m)
          semanticModel allMetrics (snd fs)
      else Some fs)"

definition ratio_step ::
  "metric_converter \<Rightarrow> bool \<Rightarrow> metric \<Rightarrow> semantic_model \<Rightarrow> metric list \<Rightarrow> jsval \<times> resolver_state
     \<Rightarrow> (jsval \<times> resolver_state) option" where
  "ratio_step convertMetric friendly m semanticModel allMetrics fs =
     (if mt_type m = ''ratio'' \<and> ref_truthy (tp_numerator m) \<and> ref_truthy (tp_denominator m) then
        (let numerator = the (tp_numerator m); denominator = the (tp_denominator m) in
         case buildSigmaMeasureFormula convertMetric friendly numerator semanticModel allMetrics
                (snd fs) of
           None \<Rightarrow> None
         | Some (numeratorFormula, st1) \<Rightarrow>
             (case buildSigmaMeasureFormula convertMetric friendly denominator semanticModel
                     allMetrics st1 of
                None \<Rightarrow> None
              | Some (denominatorFormula, st2) \<Rightarrow>
                  if truthy numeratorFormula \<and> truthy denominatorFormula
                  then Some (Some (''('' @ the numeratorFormula @ '') / (''
                                     @ the denominatorFormula @ '')''), st2)
                  else Some (fst fs,
                             warn (ratio_warning (mt_name m) (ref_name numerator)
                                     (ref_name denominator)) st2)))
      else Some fs)"

fun convertMetricToSigma :: "nat \<Rightarrow> bool \<Rightarrow> metric_converter" where
  "convertMetricToSigma 0 friendly m semanticModel allMetrics st = None"
| "convertMetricToSigma (Suc fuel) friendly m semanticModel allMetrics st =
     (case simple_step (convertMetricToSigma fuel friendly) friendly m semanticModel allMetrics
             (None, st) of
        None \<Rightarrow> None
      | Some fs1 \<Rightarrow>
     (case derived_step (convertMetricToSigma fuel friendly) friendly m semanticModel allMetrics
             fs1 of
        None \<Rightarrow> None
      | Some fs2 \<Rightarrow>
     (case ratio_step (convertMetricToSigma fuel friendly) friendly m semanticModel allMetrics
             fs2 of
        None \<Rightarrow> None
      | Some (formula, st3) \<Rightarrow>
          Some (\<lparr> sg_id = mt_name m, sg_name = mt_name m,
                  sg_description = Some (first_truthy (mt_description m) (mt_label m) (mt_name m)),
                  sg_formula = formula \<rparr>,
                if truthy formula \<and> convertedMetrics st3 (mt_name m) = None
                then store (mt_name m)
                       \<lparr> fo_formula = the formula, fo_aggFunc = Undefined,
                         fo_measureExpr = Undefined, fo_existingFilter = Undefined \<rparr> st3
                else st3))))"

subsection \<open>metric_analyzer\<close>

definition extractDimensionReferences :: "metric \<Rightarrow> string list" where
  "extractDimensionReferences m =
     concat (map (\<lambda>r. case ref_filter r of
                         Some filterStr \<Rightarrow> findDimensionReferences filterStr
                       | None \<Rightarrow> []) (tp_metrics m))"

definition name_known :: "semantic_model \<Rightarrow> metric list \<Rightarrow> string \<Rightarrow> bool" where
  "name_known semanticModel allMetrics name =
     (list_ex (\<lambda>m. m_name m = name) (sm_measures semanticModel) \<or>
      list_ex (\<lambda>m. mt_name m = name) allMetrics)"

definition canAddMetricToModel :: "bool \<Rightarrow> metric \<Rightarrow> semantic_model \<Rightarrow> metric list \<Rightarrow> bool" where
  "canAddMetricToModel friendly m semanticModel allMetrics =
     (list_all (\<lambda>r. name_known semanticModel allMetrics (ref_name r)) (tp_metrics m) \<and>
      (if mt_type m = ''ratio'' then
         (if ref_truthy (tp_numerator m)
          then name_known semanticModel allMetrics (ref_name (the (tp_numerator m)))
          else True) \<and>
         (if ref_truthy (tp_denominator m)
          then name_known semanticModel allMetrics (ref_name (the (tp_denominator m)))
          else True)
       else True) \<and>
      list_all (\<lambda>dimRef.
                  list_ex (\<lambda>e. Some (e_name e) = fst (parseDimensionReference friendly dimRef))
                    (sm_entities semanticModel))
        (extractDimensionReferences m))"

subsection \<open>The measure and metric sections of \<open>convertSemantics\<close>\<close>

record metric_output =
  element_metrics :: "sigma_metric list"
  crossModelMetrics :: "metric list"
  resolver :: resolver_state

definition process_metric ::
  "nat \<Rightarrow> bool \<Rightarrow> semantic_model \<Rightarrow> metric list \<Rightarrow> metric_output option \<Rightarrow> metric
     \<Rightarrow> metric_output option" where
  "process_metric fuel friendly semanticModel allMetrics acc m =
     (case acc of
        None \<Rightarrow> None
      | Some out \<Rightarrow>
          if canAddMetricToModel friendly m semanticModel allMetrics then
            (case convertMetricToSigma fuel friendly m semanticModel allMetrics (resolver out) of
               None \<Rightarrow> None
             | Some (sigmaMetric, st) \<Rightarrow>
                 Some (out \<lparr> element_metrics :=
                               (if truthy (sg_formula sigmaMetric)
                                then element_metrics out @ [sigmaMetric]
                                else element_metrics out),
                             resolver := st \<rparr>))
          else Some (out \<lparr> crossModelMetrics := crossModelMetrics out @ [m] \<rparr>))"

definition convert_metrics ::
  "nat \<Rightarrow> bool \<Rightarrow> semantic_model \<Rightarrow> metric list \<Rightarrow> metric_output option" where
  "convert_metrics fuel friendly semanticModel allMetrics =
     (let measureMetrics =
            map (\<lambda>m. \<lparr> sg_id = m_name m, sg_name = m_name m, sg_description = m_description m,
                        sg_formula = Some (fo_formula (buildMeasureFormula friendly m)) \<rparr>)
              (sm_measures semanticModel);
          start = Some \<lparr> element_metrics = measureMetrics, crossModelMetrics = [],
                         resolver = \<lparr> convertedMetrics = Map.empty, console = [] \<rparr> \<rparr>;
          simpleDone = foldl (process_metric fuel friendly semanticModel allMetrics) start
                         (filter (\<lambda>m. mt_type m = ''simple'') allMetrics);
          derivedDone = foldl (process_metric fuel friendly semanticModel allMetrics) simpleDone
                          (filter (\<lambda>m. mt_type m = ''derived'') allMetrics)
      in foldl (process_metric fuel friendly semanticModel allMetrics) derivedDone
           (filter (\<lambda>m. mt_type m = ''ratio'') allMetrics))"

subsection \<open>An example model and catalog\<close>

text \<open>
  A model \<open>orders\<close> with a \<open>sum\<close> measure and a \<open>median\<close> measure (an aggregation outside the
  six that \<open>buildMeasureFormulaWithFilter\<close> knows), and a catalog of simple metrics on them,
  with and without a filter, and of derived metrics that refer to these with a filter of
  their own.
\<close>

definition orders_model :: semantic_model where
  "orders_model =
     \<lparr> sm_name = ''orders'', sm_description = None,
       sm_entities = [\<lparr> e_name = ''order'', e_type = ''primary'', e_expr = None \<rparr>],
       sm_measures =
         [\<lparr> m_name = ''amount'', m_agg = ''sum'', m_expr = Some ''amount'', m_description = None \<rparr>,
          \<lparr> m_name = ''typical'', m_agg = ''median'', m_expr = Some ''amount'', m_description = None \<rparr>] \<rparr>"

definition status_filter :: string where
  "status_filter = ''{{ Dimension('' @ sq @ ''order__status'' @ sq @ '') }} = '' @ sq @ ''done'' @ sq"

definition region_filter :: string where
  "region_filter = ''{{ Dimension('' @ sq @ ''order__region'' @ sq @ '') }} = '' @ sq @ ''EU'' @ sq"

definition simple_metric :: "string \<Rightarrow> string \<Rightarrow> string option \<Rightarrow> metric" where
  "simple_metric name measureName filterStr =
     \<lparr> mt_name = name, mt_description = None, mt_label = None, mt_type = ''simple'',
       mt_filter = filterStr, tp_measure = Some measureName, tp_expr = None, tp_metrics = [],
       tp_numerator = None, tp_denominator = None \<rparr>"

definition derived_metric :: "string \<Rightarrow> string \<Rightarrow> metric_ref list \<Rightarrow> metric" where
  "derived_metric name expr refs =
     \<lparr> mt_name = name, mt_description = None, mt_label = None, mt_type = ''derived'',
       mt_filter = None, tp_measure = None, tp_expr = Some expr, tp_metrics = refs,
       tp_numerator = None, tp_denominator = None \<rparr>"

definition filtered_ref :: "string \<Rightarrow> string \<Rightarrow> metric_ref" where
  "filtered_ref name filterStr = Ref \<lparr> r_name = name, r_filter = Some filterStr, r_alias = None \<rparr>"

definition catalog :: "metric list" where
  "catalog =
     [simple_metric ''revenue'' ''amount'' None,
      simple_metric ''done_revenue'' ''amount'' (Some status_filter),
      simple_metric ''typical_done'' ''typical'' (Some status_filter),
      derived_metric ''eu_done'' ''done_revenue'' [filtered_ref ''done_revenue'' region_filter],
      derived_metric ''eu_revenue'' ''revenue'' [filtered_ref ''revenue'' region_filter],
      derived_metric ''eu_typical'' ''typical_done'' [filtered_ref ''typical_done'' region_filter]]"

definition empty_state :: resolver_state where
  "empty_state = \<lparr> convertedMetrics = Map.empty, console = [] \<rparr>"


text \<open>A simple metric on a measure that the model does not declare.\<close>

definition lost_metric :: metric where
  "lost_metric = simple_metric ''lost'' ''missing_measure'' None"

text \<open>The resolver state after the catalog metric of the given name has been converted.\<close>

definition state_after :: "string \<Rightarrow> resolver_state" where
  "state_after name =
     (case find (\<lambda>m. mt_name m = name) catalog of
        Some m \<Rightarrow>
          (case convertMetricToSigma 2 False m orders_model catalog empty_state of
             Some (g, st) \<Rightarrow> st
           | None \<Rightarrow> empty_state)
      | None \<Rightarrow> empty_state)"


definition done_ref :: metric_ref_obj where
  "done_ref = \<lparr> r_name = ''done_revenue'', r_filter = Some region_filter, r_alias = None \<rparr>"

definition blank_ref :: metric_ref_obj where
  "blank_ref = \<lparr> r_name = ''done_revenue'', r_filter = Some ''{{ }}'', r_alias = None \<rparr>"

definition revenue_ref :: metric_ref_obj where
  "revenue_ref = \<lparr> r_name = ''revenue'', r_filter = Some region_filter, r_alias = None \<rparr>"

definition typical_ref :: metric_ref_obj where
  "typical_ref = \<lparr> r_name = ''typical_done'', r_filter = Some region_filter, r_alias = None \<rparr>"

definition status_sigma :: string where
  "status_sigma = ''[status] = '' @ sq @ ''done'' @ sq"

definition region_sigma :: string where
  "region_sigma = ''[region] = '' @ sq @ ''EU'' @ sq"

definition done_object :: formula_object where
  "done_object = \<lparr> fo_formula = ''sumif([amount],'' @ status_sigma @ '')'',
                    fo_aggFunc = Str ''sumif'', fo_measureExpr = Str ''amount'',
                    fo_existingFilter = Str status_sigma \<rparr>"

definition revenue_object :: formula_object where
  "revenue_object = \<lparr> fo_formula = ''sum([amount])'', fo_aggFunc = Str ''sum'',
                       fo_measureExpr = Str ''amount'', fo_existingFilter = Null \<rparr>"

definition typical_object :: formula_object where
  "typical_object = \<lparr> fo_formula = ''null([amount],'' @ status_sigma @ '')'',
                       fo_aggFunc = Null, fo_measureExpr = Str ''amount'',
                       fo_existingFilter = Str status_sigma \<rparr>"

text \<open>
  A catalog in which the simple metric \<open>amount\<close> has the name of its measure, and the state
  after this metric has been converted.
\<close>

definition same_name_catalog :: "metric list" where
  "same_name_catalog =
     [simple_metric ''amount'' ''amount'' None,
      derived_metric ''eu_amount'' ''amount'' [filtered_ref ''amount'' region_filter]]"

definition same_name_state :: resolver_state where
  "same_name_state =
     (case convertMetricToSigma 2 False (simple_metric ''amount'' ''amount'' None) orders_model
             same_name_catalog empty_state of
        Some (g, st) \<Rightarrow> st
      | None \<Rightarrow> empty_state)"

definition amount_ref :: metric_ref_obj where
  "amount_ref = \<lparr> r_name = ''amount'', r_filter = Some region_filter, r_alias = None \<rparr>"

subsection \<open>Ranked catalogs\<close>





subsection \<open>A reference with a filter to a converted metric\<close>

lemma ref_filter_Ref: "r_filter obj = Some f \<Longrightarrow> f \<noteq> [] \<Longrightarrow> ref_filter (Ref obj) = Some f"
  by (simp add: ref_filter_def opt_truthy_def)

text \<open>
  Claim C8 (amended). A reference with a filter names a metric of the catalog that is not a
  measure and is already converted, and the cached formula object has a non-empty
  aggregation function and an existing filter that is neither \<open>null\<close> nor \<open>undefined\<close>.
  Then the resolver combines the cached filter and the converted filter of the reference as
  \<open>(existing) and new\<close>, an empty one of the two being left out, rebuilds the formula from the
  cached aggregation function and measure expression, as \<open>aggFunc([measureExpr],combined)\<close> or
  \<open>countif(combined)\<close>, returns it and caches it with the combined filter under the
  referenced name. The combined filter stands in one call of the aggregation function.
\<close>

theorem reference_filter_combined:
  assumes "find (\<lambda>m. m_name m = r_name ref) (sm_measures semanticModel) = None"
    and "find (\<lambda>m. mt_name m = r_name ref) allMetrics = Some referenced"
    and "convertedMetrics st (r_name ref) = Some obj"
    and "r_filter ref = Some f" and "f \<noteq> []"
    and "fo_aggFunc obj = Str aggFunc" and "aggFunc \<noteq> []"
    and "fo_existingFilter obj = Str existing"
    and "new = convertFilterToSigma friendly f (sm_name semanticModel)"
    and "combined = (if existing = [] then new else if new = [] then existing
                     else ''('' @ existing @ '') and '' @ new)"
    and "formula = (if aggFunc = ''countif'' then aggFunc @ ''('' @ combined @ '')''
                    else aggFunc @ ''(['' @ str_template (fo_measureExpr obj) @ ''],''
                           @ combined @ '')'')"
  shows "buildSigmaMeasureFormula convertMetric friendly (Ref ref) semanticModel allMetrics st =
           Some (Some formula,
                 st \<lparr> convertedMetrics := (convertedMetrics st)(r_name ref \<mapsto>
                        \<lparr> fo_formula = formula, fo_aggFunc = Str aggFunc,
                          fo_measureExpr = fo_measureExpr obj,
                          fo_existingFilter = Str combined \<rparr>) \<rparr>)"
  using assms
  by (simp add: buildSigmaMeasureFormula_def apply_reference_filter_def ref_name_def
        ref_filter_Ref combineFilters_def rebuildFilteredFormula_def store_def Let_def)

text \<open>
  Witness for C8 (amended): the derived metric \<open>eu_done\<close> refers with a region filter to
  \<open>done_revenue\<close>, converted before with a status filter; the formula is
  \<open>sumif([amount],([status] = 'done') and [region] = 'EU')\<close>.
\<close>

theorem reference_filter_combined_witness:
  "find (\<lambda>m. m_name m = r_name done_ref) (sm_measures orders_model) = None \<and>
   find (\<lambda>m. mt_name m = r_name done_ref) catalog
     = Some (simple_metric ''done_revenue'' ''amount'' (Some status_filter)) \<and>
   convertedMetrics (state_after ''done_revenue'') (r_name done_ref) = Some done_object \<and>
   r_filter done_ref = Some region_filter \<and> region_filter \<noteq> [] \<and>
   fo_aggFunc done_object = Str ''sumif'' \<and> fo_existingFilter done_object = Str status_sigma \<and>
   convertFilterToSigma False region_filter (sm_name orders_model) = region_sigma \<and>
   map_option fst
     (buildSigmaMeasureFormula (convertMetricToSigma 1 False) False (Ref done_ref) orders_model
        catalog (state_after ''done_revenue''))
     = Some (Some (''sumif([amount],('' @ status_sigma @ '') and '' @ region_sigma @ '')''))"
proof -
  have h1: "find (\<lambda>m. m_name m = r_name done_ref) (sm_measures orders_model) = None"
    by code_simp
  have h2: "find (\<lambda>m. mt_name m = r_name done_ref) catalog
              = Some (simple_metric ''done_revenue'' ''amount'' (Some status_filter))"
    by code_simp
  have h3: "convertedMetrics (state_after ''done_revenue'') (r_name done_ref) = Some done_object"
    by code_simp
  have h4: "r_filter done_ref = Some region_filter" by (simp add: done_ref_def)
  have h5: "region_filter \<noteq> []" by (simp add: region_filter_def)
  have h6: "fo_aggFunc done_object = Str ''sumif''" by (simp add: done_object_def)
  have h7: "''sumif'' \<noteq> []" by simp
  have h8: "fo_existingFilter done_object = Str status_sigma" by (simp add: done_object_def)
  have n: "convertFilterToSigma False region_filter (sm_name orders_model) = region_sigma"
    by code_simp
  have e: "status_sigma \<noteq> []" "region_sigma \<noteq> []"
    by (simp_all add: status_sigma_def region_sigma_def)
  have m: "fo_measureExpr done_object = Str ''amount''" by (simp add: done_object_def)
  from reference_filter_combined[OF h1 h2 h3 h4 h5 h6 h7 h8 refl refl refl,
         of "convertMetricToSigma 1 False" False]
  have "map_option fst
     (buildSigmaMeasureFormula (convertMetricToSigma 1 False) False (Ref done_ref) orders_model
        catalog (state_after ''done_revenue''))
     = Some (Some (''sumif([amount],('' @ status_sigma @ '') and '' @ region_sigma @ '')''))"
    by (simp add: n e m str_template_def)
  with h1 h2 h3 h4 h5 h6 h8 n show ?thesis by simp
qed

text \<open>
  Counterexample to C8 as stated. The metric \<open>typical_done\<close> is converted with its own filter
  on a \<open>median\<close> measure, so its cached aggregation function is \<open>null\<close>; a reference to it with
  a region filter returns the cached formula, and the two filters are not combined. And a
  reference to \<open>done_revenue\<close> whose filter converts to the empty string rebuilds the formula
  with the cached filter alone, without \<open>and\<close>.
\<close>

theorem unsupported_aggregation_counterexample:
  "find (\<lambda>m. mt_name m = ''typical_done'') catalog
     = Some (simple_metric ''typical_done'' ''typical'' (Some status_filter)) \<and>
   convertedMetrics (state_after ''typical_done'') ''typical_done'' = Some typical_object \<and>
   convertFilterToSigma False region_filter (sm_name orders_model) = region_sigma \<and>
   map_option fst
     (buildSigmaMeasureFormula (convertMetricToSigma 1 False) False (Ref typical_ref) orders_model
        catalog (state_after ''typical_done''))
     = Some (Some (''null([amount],'' @ status_sigma @ '')'')) \<and>
   convertFilterToSigma False ''{{ }}'' (sm_name orders_model) = [] \<and>
   map_option fst
     (buildSigmaMeasureFormula (convertMetricToSigma 1 False) False (Ref blank_ref) orders_model
        catalog (state_after ''done_revenue''))
     = Some (Some (''sumif([amount],'' @ status_sigma @ '')''))"
  by code_simp

text \<open>
  Claim C10 (amended). A reference with a filter names a metric of the catalog that is not a
  measure of the model and is already converted, and the existing filter of the cached
  formula object is \<open>null\<close> or \<open>undefined\<close>. Then the resolver returns the cached formula
  unchanged and leaves the state as it is: the filter of the reference is dropped, nothing
  is cached and nothing is written to the console.
\<close>

theorem reference_filter_dropped:
  assumes "find (\<lambda>m. m_name m = r_name ref) (sm_measures semanticModel) = None"
    and "find (\<lambda>m. mt_name m = r_name ref) allMetrics = Some referenced"
    and "convertedMetrics st (r_name ref) = Some obj"
    and "r_filter ref = Some f" and "f \<noteq> []"
    and "fo_existingFilter obj = Null \<or> fo_existingFilter obj = Undefined"
  shows "buildSigmaMeasureFormula convertMetric friendly (Ref ref) semanticModel allMetrics st =
           Some (Some (fo_formula obj), st)"
  using assms
  by (auto simp: buildSigmaMeasureFormula_def apply_reference_filter_def ref_name_def
        ref_filter_Ref Let_def split: jsstr.splits)

text \<open>
  Witness for C10 (amended): the derived metric \<open>eu_revenue\<close> refers with a region filter to the
  unfiltered simple metric \<open>revenue\<close>; the answer is \<open>sum([amount])\<close>.
\<close>

theorem reference_filter_dropped_witness:
  "find (\<lambda>m. m_name m = r_name revenue_ref) (sm_measures orders_model) = None \<and>
   find (\<lambda>m. mt_name m = r_name revenue_ref) catalog
     = Some (simple_metric ''revenue'' ''amount'' None) \<and>
   convertedMetrics (state_after ''revenue'') (r_name revenue_ref) = Some revenue_object \<and>
   r_filter revenue_ref = Some region_filter \<and> region_filter \<noteq> [] \<and>
   fo_existingFilter revenue_object = Null \<and>
   buildSigmaMeasureFormula (convertMetricToSigma 1 False) False (Ref revenue_ref) orders_model
        catalog (state_after ''revenue'')
     = Some (Some ''sum([amount])'', state_after ''revenue'')"
proof -
  have h1: "find (\<lambda>m. m_name m = r_name revenue_ref) (sm_measures orders_model) = None"
    by code_simp
  have h2: "find (\<lambda>m. mt_name m = r_name revenue_ref) catalog
              = Some (simple_metric ''revenue'' ''amount'' None)"
    by code_simp
  have h3: "convertedMetrics (state_after ''revenue'') (r_name revenue_ref) = Some revenue_object"
    by code_simp
  have h4: "r_filter revenue_ref = Some region_filter" by (simp add: revenue_ref_def)
  have h5: "region_filter \<noteq> []" by (simp add: region_filter_def)
  have h6: "fo_existingFilter revenue_object = Null" by (simp add: revenue_object_def)
  from reference_filter_dropped[OF h1 h2 h3 h4 h5 disjI1[OF h6],
         of "convertMetricToSigma 1 False" False]
    h1 h2 h3 h4 h5 h6
  show ?thesis by (simp add: revenue_object_def)
qed

text \<open>
  Counterexample to C10 as stated: the metric \<open>amount\<close> is converted without a filter, so
  the existing filter of its cached formula object is \<open>null\<close>; but \<open>amount\<close> is also a
  measure of the model, and the resolver looks for a measure first. A reference to \<open>amount\<close>
  with a region filter is answered with \<open>sumif([amount],[region] = 'EU')\<close>, and this
  formula object replaces the cached one: the filter is applied, not dropped.
\<close>

theorem same_name_measure_counterexample:
  "find (\<lambda>m. mt_name m = ''amount'') same_name_catalog
     = Some (simple_metric ''amount'' ''amount'' None) \<and>
   convertedMetrics same_name_state ''amount'' = Some revenue_object \<and>
   fo_existingFilter revenue_object = Null \<and>
   r_filter amount_ref = Some region_filter \<and>
   map_option (\<lambda>r. (fst r, convertedMetrics (snd r) ''amount'', console (snd r)))
     (buildSigmaMeasureFormula (convertMetricToSigma 1 False) False (Ref amount_ref) orders_model
        same_name_catalog same_name_state)
     = Some (Some (''sumif([amount],'' @ region_sigma @ '')''),
             Some \<lparr> fo_formula = ''sumif([amount],'' @ region_sigma @ '')'',
                    fo_aggFunc = Str ''sumif'', fo_measureExpr = Str ''amount'',
                    fo_existingFilter = Str region_sigma \<rparr>,
             [])"
  by code_simp

subsection \<open>Termination of metric resolution\<close>















subsection \<open>A simple metric on an absent measure\<close>

text \<open>
  Claim C7, evaluated for the simple metric \<open>lost\<close> on the measure \<open>missing_measure\<close>, which
  the model \<open>orders\<close> does not declare and which names no metric. \<open>canAddMetricToModel\<close>
  answers \<open>true\<close>, since it never looks at \<open>type_params.measure\<close>; the conversion then finds
  no formula, so the metric is left out of the metrics of the model (only the two measures
  are there), the cross-model list stays empty, and a warning is written.
\<close>

theorem missing_measure_metric_dropped:
  "canAddMetricToModel False lost_metric orders_model [lost_metric] \<and>
   map_option (\<lambda>out. (map sg_name (element_metrics out), map mt_name (crossModelMetrics out),
                       console (resolver out)))
     (convert_metrics 2 False orders_model [lost_metric])
     = Some ([''amount'', ''typical''], [], [not_found_warning ''missing_measure''])"
  by code_simp

section \<open>Translating a translated expression\<close>

subsection \<open>The column references, left to right\<close>

text \<open>
  What \<open>convertColumnReferences\<close> writes in the default naming mode, in one pass from the
  left. The state is: whether the previous character is a word character (no identifier
  starts there), whether the number of single and of double quotes read so far is odd, and
  whether an opening bracket has been read. An identifier is copied when it is a reserved
  word, or follows an odd number of quotes, or has an opening bracket before it and a closing
  one after it; otherwise it is put in brackets.
\<close>

function render :: "bool \<Rightarrow> bool \<Rightarrow> bool \<Rightarrow> bool \<Rightarrow> string \<Rightarrow> string" where
  "render prev_word inSingle inDouble seenOpen [] = []"
| "render prev_word inSingle inDouble seenOpen (c # cs) =
     (if \<not> prev_word \<and> ident_start c then
        (if toLowerCase (c # takeWhile word_char cs) \<in> set sigmaFunctions \<or> inSingle \<or> inDouble \<or>
            (seenOpen \<and> CHR '']'' \<in> set (dropWhile word_char cs))
         then c # takeWhile word_char cs
         else ''['' @ c # takeWhile word_char cs @ '']'')
        @ render True inSingle inDouble seenOpen (dropWhile word_char cs)
      else c # render (word_char c) (inSingle \<noteq> (c = CHR 0x27)) (inDouble \<noteq> (c = CHR 0x22))
                 (seenOpen \<or> c = CHR ''['') cs)"
  by pat_completeness auto
termination
  by (relation "measure (\<lambda>(p, a, b, d, s). length s)")
     (auto simp: length_dropWhile_le less_Suc_eq_le)

declare render.simps [simp del]

text \<open>A string that is empty or starts with a character that is no word character.\<close>

definition starts_plain :: "string \<Rightarrow> bool" where
  "starts_plain s = (case s of [] \<Rightarrow> True | c # cs \<Rightarrow> \<not> word_char c)"











subsection \<open>The replacements applied from the right are the pass from the left\<close>

lemma ident_start_word: "ident_start c \<Longrightarrow> word_char c"
  by (simp add: word_char_def)

lemma word_char_plain:
  "word_char c \<Longrightarrow> c \<noteq> CHR 0x27 \<and> c \<noteq> CHR 0x22 \<and> c \<noteq> CHR ''['' \<and> c \<noteq> CHR '']'' \<and> \<not> is_space c"
  by (auto simp: word_char_def ident_start_def is_upper_def is_lower_def is_digit_def
        char_code_def is_space_def)

lemma count_char_append [simp]: "count_char c (xs @ ys) = count_char c xs + count_char c ys"
  by (simp add: count_char_def)









lemma fst_replacement_of [simp]: "fst (replacement_of friendly m) = fst m"
  by (cases m) (simp add: replacement_of_def)


lemma words_takeWhile: "list_all word_char (takeWhile word_char cs)"
  by (simp add: list_all_iff) (meson set_takeWhileD)




subsection \<open>The pass from the left is idempotent\<close>

lemma starts_plain_dropWhile: "starts_plain (dropWhile word_char cs)"
  by (induction cs) (auto simp: starts_plain_def)

lemma render_plain:
  "\<not> word_char c \<Longrightarrow>
   render pw a b d (c # cs) =
     c # render False (a \<noteq> (c = CHR 0x27)) (b \<noteq> (c = CHR 0x22)) (d \<or> c = CHR ''['') cs"
  by (auto simp: render.simps dest: ident_start_word)

lemma render_head_indep: "starts_plain s \<Longrightarrow> render pw a b d s = render pw' a b d s"
proof (cases s)
  case Nil
  then show ?thesis by (simp add: render.simps(1))
next
  case (Cons c cs)
  assume "starts_plain s"
  with Cons have "\<not> word_char c" by (simp add: starts_plain_def)
  then show ?thesis by (simp add: Cons render_plain)
qed

lemma starts_plain_render: "starts_plain s \<Longrightarrow> starts_plain (render pw a b d s)"
proof (cases s)
  case Nil
  then show ?thesis by (simp add: render.simps(1) starts_plain_def)
next
  case (Cons c cs)
  assume "starts_plain s"
  with Cons have "\<not> word_char c" by (simp add: starts_plain_def)
  then show ?thesis by (simp add: Cons render_plain starts_plain_def)
qed

lemma render_match:
  "\<not> pw \<Longrightarrow> ident_start c \<Longrightarrow> list_all word_char tw \<Longrightarrow> starts_plain rest \<Longrightarrow>
   render pw a b d (c # tw @ rest) =
     (if toLowerCase (c # tw) \<in> set sigmaFunctions \<or> a \<or> b \<or> (d \<and> CHR '']'' \<in> set rest)
      then c # tw else ''['' @ c # tw @ '']'') @ render True a b d rest"
proof -
  assume h: "\<not> pw" "ident_start c" "list_all word_char tw" "starts_plain rest"
  have t: "takeWhile word_char (tw @ rest) = tw"
    using h(3,4) by (cases rest) (auto simp: starts_plain_def list_all_iff takeWhile_append)
  have dr: "dropWhile word_char (tw @ rest) = rest"
    using h(3,4) by (cases rest) (auto simp: starts_plain_def list_all_iff dropWhile_append)
  show ?thesis
    using h(1,2) by (simp add: render.simps t dr)
qed

lemma set_render: "x \<in> set s \<Longrightarrow> x \<in> set (render pw a b d s)"
proof (induction pw a b d s rule: render.induct)
  case (1 prev_word inSingle inDouble seenOpen)
  then show ?case by simp
next
  case (2 prev_word inSingle inDouble seenOpen c cs)
  show ?case
  proof (cases "\<not> prev_word \<and> ident_start c")
    case True
    have "c # cs = (c # takeWhile word_char cs) @ dropWhile word_char cs" by simp
    with 2(3) have "x \<in> set (c # takeWhile word_char cs) \<or> x \<in> set (dropWhile word_char cs)"
      by (metis Un_iff set_append)
    with 2(1)[OF True] True show ?thesis
      by (auto simp: render.simps)
  next
    case False
    with 2(2)[OF False] 2(3) show ?thesis
      by (auto simp: render.simps)
  qed
qed

lemma render_idem:
  "(d \<longrightarrow> d2) \<Longrightarrow> render pw a b d2 (render pw a b d s) = render pw a b d s"
proof (induction pw a b d s arbitrary: d2 rule: render.induct)
  case (1 prev_word inSingle inDouble seenOpen)
  show ?case by (simp add: render.simps)
next
  case (2 pw a b d c cs)
  show ?case
  proof (cases "\<not> pw \<and> ident_start c")
    case True
    define tw where "tw = takeWhile word_char cs"
    define rest where "rest = dropWhile word_char cs"
    define R where "R = render True a b d rest"
    have tww: "list_all word_char tw" unfolding tw_def by (rule words_takeWhile)
    have sp: "starts_plain rest" unfolding rest_def by (rule starts_plain_dropWhile)
    have spR: "starts_plain R" unfolding R_def by (rule starts_plain_render[OF sp])
    have ih: "(d \<longrightarrow> e) \<Longrightarrow> render True a b e R = R" for e
      using 2(1)[OF True, of e] by (simp add: R_def rest_def)
    have out: "render pw a b d (c # cs) =
                (if toLowerCase (c # tw) \<in> set sigmaFunctions \<or> a \<or> b \<or> (d \<and> CHR '']'' \<in> set rest)
                 then c # tw else ''['' @ c # tw @ '']'') @ R"
      using True by (simp add: render.simps tw_def rest_def R_def)
    show ?thesis
    proof (cases "toLowerCase (c # tw) \<in> set sigmaFunctions \<or> a \<or> b \<or> (d \<and> CHR '']'' \<in> set rest)")
      case skip: True
      have "CHR '']'' \<in> set rest \<Longrightarrow> CHR '']'' \<in> set R"
        unfolding R_def by (rule set_render)
      with skip 2(3) have skip2:
        "toLowerCase (c # tw) \<in> set sigmaFunctions \<or> a \<or> b \<or> (d2 \<and> CHR '']'' \<in> set R)"
        by blast
      have "render pw a b d2 (c # tw @ R) = (c # tw) @ render True a b d2 R"
        using render_match[of pw c tw R a b d2] True tww spR skip2 by simp
      with skip 2(3) show ?thesis
        unfolding out by (simp add: ih)
    next
      case rep: False
      have br: "\<not> word_char (CHR ''['')" "\<not> word_char (CHR '']'')"
        using word_char_plain by blast+
      have spR': "starts_plain (CHR '']'' # R)" by (simp add: starts_plain_def br)
      have 1: "render pw a b d2 (CHR ''['' # c # tw @ CHR '']'' # R)
                 = CHR ''['' # render False a b True (c # tw @ CHR '']'' # R)"
        by (simp add: render_plain[OF br(1)])
      have 2: "render False a b True (c # tw @ CHR '']'' # R)
                 = (c # tw) @ render True a b True (CHR '']'' # R)"
        using render_match[of False c tw "CHR '']'' # R" a b True] True tww spR' by simp
      have 3: "render True a b True (CHR '']'' # R) = CHR '']'' # render False a b True R"
        by (simp add: render_plain[OF br(2)])
      have 4: "render False a b True R = R"
        using render_head_indep[OF spR, of False a b True True] ih[of True] by simp
      have "render pw a b d2 (''['' @ c # tw @ '']'' @ R) = ''['' @ c # tw @ '']'' @ R"
        using 1 2 3 4 by simp
      then show ?thesis
        unfolding out if_not_P[OF rep] by simp
    qed
  next
    case False
    have out: "render pw a b e (c # xs) =
                c # render (word_char c) (a \<noteq> (c = CHR 0x27)) (b \<noteq> (c = CHR 0x22))
                      (e \<or> c = CHR ''['') xs" for e xs
      using False by (auto simp: render.simps)
    from 2(3) have "(d \<or> c = CHR ''['') \<longrightarrow> (d2 \<or> c = CHR ''['')" by blast
    from 2(2)[OF False this] show ?thesis
      by (simp add: out)
  qed
qed

lemma convertColumnReferences_render_fixed:
  "render False False False False (render False False False False s)
     = render False False False False s"
  by (rule render_idem) simp

subsection \<open>White space of the result\<close>















subsection \<open>An expression without a construct to rewrite\<close>





lemma is_space_code: "is_space d \<Longrightarrow> char_code d \<in> {32, 9, 10, 11, 12, 13, 160}"
  by (auto simp: is_space_def char_code_def)

lemma lower_char_code: "is_upper c \<Longrightarrow> char_code (lower_char c) = char_code c + 32"
proof -
  assume u: "is_upper c"
  then have "char_code c + 32 < 256" by (simp add: is_upper_def)
  then have "(char_code c + 32) mod 256 = char_code c + 32" by simp
  with u show ?thesis by (simp add: lower_char_def char_code_def)
qed

lemma is_space_lower_char [simp]: "is_space (lower_char c) = is_space c"
proof (cases "is_upper c")
  case True
  from True have "\<not> is_space c"
    using is_space_code[of c] by (auto simp: is_upper_def)
  moreover from True have "\<not> is_space (lower_char c)"
    using is_space_code[of "lower_char c"] lower_char_code[OF True]
    by (auto simp: is_upper_def)
  ultimately show ?thesis by simp
next
  case False
  then show ?thesis by (simp add: lower_char_def)
qed













end
